theory Spec2Isabelle
  imports Complex_Main
begin

section \<open>Python values used by the package\<close>

text \<open>
  Exceptions are values. Each constructor is one Python exception class (with the
  classes derived from it) that the modelled code can raise, with the message where the
  source builds one; \<open>OtherError\<close> is an exception of a class outside all of these,
  by the name of the class.
\<close>

datatype error =
    TypeError string
  | ValueError string
  | IndexError
  | UnboundLocalError string
  | FileNotFoundError
  | ParameterError string
  | OtherError string

abbreviation NL :: char where "NL \<equiv> CHR 0x0A"
abbreviation TAB :: char where "TAB \<equiv> CHR 0x09"
abbreviation SP :: char where "SP \<equiv> CHR '' ''"
abbreviation HASH :: char where "HASH \<equiv> CHR ''#''"

subsection \<open>String methods\<close>

text \<open>\<^verbatim>\<open>s.strip(chars)\<close>: drop the leading and the trailing characters that are in \<open>chars\<close>.\<close>

definition strip :: "string \<Rightarrow> string \<Rightarrow> string" where
  "strip chars s =
     rev (dropWhile (\<lambda>c. c \<in> set chars) (rev (dropWhile (\<lambda>c. c \<in> set chars) s)))"

text \<open>\<^verbatim>\<open>s.replace('\t', ' ')\<close>: every occurrence of the one character is replaced.\<close>

definition replace_char :: "char \<Rightarrow> char \<Rightarrow> string \<Rightarrow> string" where
  "replace_char a b s = map (\<lambda>c. if c = a then b else c) s"

text \<open>
  \<^verbatim>\<open>s.count('  ')\<close> and \<^verbatim>\<open>s.replace('  ', ' ')\<close>: Python scans from the left and
  takes non-overlapping occurrences of the two spaces.
\<close>

fun count_dbl :: "string \<Rightarrow> nat" where
  "count_dbl (a # b # cs) =
     (if a = SP \<and> b = SP then Suc (count_dbl cs) else count_dbl (b # cs))"
| "count_dbl cs = 0"

fun replace_dbl :: "string \<Rightarrow> string" where
  "replace_dbl (a # b # cs) =
     (if a = SP \<and> b = SP then SP # replace_dbl cs else a # replace_dbl (b # cs))"
| "replace_dbl cs = cs"

text \<open>\<^verbatim>\<open>s.split(' ')\<close>: every single space separates; adjacent spaces give empty strings.\<close>

fun split_sp :: "string \<Rightarrow> string list" where
  "split_sp [] = [[]]"
| "split_sp (c # cs) =
     (if c = SP then [] # split_sp cs
      else (case split_sp cs of w # ws \<Rightarrow> (c # w) # ws | [] \<Rightarrow> [[c]]))"

text \<open>\<^verbatim>\<open>' '.join(names)\<close>\<close>

fun join_sp :: "string list \<Rightarrow> string" where
  "join_sp [] = []"
| "join_sp [w] = w"
| "join_sp (w # v # ws) = w @ SP # join_sp (v # ws)"

text \<open>\<^verbatim>\<open>f.readline()\<close> on the text still unread: the line with its newline, and the rest.
  At the end of the file the line is empty.\<close>

fun readline :: "string \<Rightarrow> string \<times> string" where
  "readline [] = ([], [])"
| "readline (c # cs) =
     (if c = NL then ([c], cs) else (case readline cs of (l, r) \<Rightarrow> (c # l, r)))"

section \<open>IsochroneFile\<close>

subsection \<open>The regular expression of the metallicity property\<close>

text \<open>
  \<^verbatim>\<open>_file_format = "output_{}.dat"\<close>, and \<^verbatim>\<open>_file_format.split('{}')\<close> gives the two pieces
  that the property pastes, unescaped, into the pattern
  \<^verbatim>\<open>"(?<={})(.*)(?={})"\<close>, which so reads \<^verbatim>\<open>(?<=output_)(.*)(?=.dat)\<close>.
\<close>

definition file_format :: string where
  "file_format = ''output_{}.dat''"

definition format_prefix :: string where
  "format_prefix = ''output_''"

definition format_suffix :: string where
  "format_suffix = ''.dat''"

text \<open>One pattern character against one character of the text: the pieces hold
  literal characters and the dot, which (without DOTALL) is any character but a newline.\<close>

definition re_char :: "char \<Rightarrow> char \<Rightarrow> bool" where
  "re_char p c = (if p = CHR ''.'' then c \<noteq> NL else c = p)"

text \<open>The pattern piece matches at the start of the text.\<close>

fun re_here :: "string \<Rightarrow> string \<Rightarrow> bool" where
  "re_here [] cs = True"
| "re_here (p # ps) [] = False"
| "re_here (p # ps) (c # cs) = (re_char p c \<and> re_here ps cs)"

text \<open>\<^verbatim>\<open>(?<=output_)\<close>: the piece matches the text that ends at the current position;
  \<open>pre\<close> is the text before the position.\<close>

definition lookbehind :: "string \<Rightarrow> bool" where
  "lookbehind pre =
     (length format_prefix \<le> length pre \<and>
      re_here format_prefix (drop (length pre - length format_prefix) pre))"

text \<open>\<^verbatim>\<open>(?=.dat)\<close>: the piece matches at the current position; \<open>cs\<close> is the text from there.\<close>

definition lookahead :: "string \<Rightarrow> bool" where
  "lookahead cs = re_here format_suffix cs"

text \<open>
  \<^verbatim>\<open>(.*)(?=.dat)\<close> from the current position: the star is greedy, so it first takes one
  more character (never a newline) and only when the rest fails to match does it stop
  where it is and try the lookahead. The result is the text of the group.
\<close>

fun dot_star :: "string \<Rightarrow> string option" where
  "dot_star [] = (if lookahead [] then Some [] else None)"
| "dot_star (c # cs) =
     (case (if c \<noteq> NL then dot_star cs else None) of
        Some m \<Rightarrow> Some (c # m)
      | None \<Rightarrow> if lookahead (c # cs) then Some [] else None)"

text \<open>
  \<^verbatim>\<open>re.findall(pattern, text)[0]\<close>: the scan tries every position from the left; the
  first match is the leftmost one. \<open>None\<close> is the empty list of matches.
\<close>

fun first_match :: "string \<Rightarrow> string \<Rightarrow> string option" where
  "first_match pre [] = (if lookbehind pre then dot_star [] else None)"
| "first_match pre (c # cs) =
     (case (if lookbehind pre then dot_star (c # cs) else None) of
        Some m \<Rightarrow> Some m
      | None \<Rightarrow> first_match (pre @ [c]) cs)"

subsection \<open>Paths\<close>

text \<open>
  \<^verbatim>\<open>pathlib.Path(p).name\<close> on a POSIX path: the last component, where empty
  components and \<^verbatim>\<open>.\<close> components do not count; the empty string when there is none.
\<close>

fun split_slash :: "string \<Rightarrow> string list" where
  "split_slash [] = [[]]"
| "split_slash (c # cs) =
     (if c = CHR ''/'' then [] # split_slash cs
      else (case split_slash cs of w # ws \<Rightarrow> (c # w) # ws | [] \<Rightarrow> [[c]]))"

definition path_name :: "string \<Rightarrow> string" where
  "path_name p =
     (case filter (\<lambda>w. w \<noteq> [] \<and> w \<noteq> ''.'') (split_slash p) of
        [] \<Rightarrow> []
      | w # ws \<Rightarrow> last (w # ws))"

subsection \<open>The object\<close>

text \<open>
  The attributes \<^verbatim>\<open>_isochrone\<close>, \<^verbatim>\<open>_path\<close>, \<^verbatim>\<open>_column_names\<close> and \<^verbatim>\<open>_data\<close>; Python's
  \<^verbatim>\<open>None\<close> in the two caches is \<open>None\<close>. The path is kept as the text it was built from.
\<close>

record ('i, 't) isochrone_file =
  priv_isochrone :: 'i
  priv_path :: string
  priv_column_names :: "string list option"
  priv_data :: "'t option"

definition path :: "('i, 't) isochrone_file \<Rightarrow> string" where
  "path self = priv_path self"

definition filename :: "('i, 't) isochrone_file \<Rightarrow> string" where
  "filename self = path_name (priv_path self)"

definition isochrone :: "('i, 't) isochrone_file \<Rightarrow> 'i" where
  "isochrone self = priv_isochrone self"

text \<open>
  \<^verbatim>\<open>float(re.findall(..., self.filename)[0])\<close>. Indexing the empty list of matches raises
  IndexError. Python's built-in \<^verbatim>\<open>float\<close> is the parameter \<open>float\<close>: it returns the
  number read from the text or raises ValueError.
\<close>

definition metallicity ::
  "(string \<Rightarrow> error + 'f) \<Rightarrow> ('i, 't) isochrone_file \<Rightarrow> error + 'f" where
  "metallicity float self =
     (case first_match [] (filename self) of
        None \<Rightarrow> Inl IndexError
      | Some found \<Rightarrow> float found)"

text \<open>The object that the constructor leaves behind: nothing is loaded yet.\<close>

definition unloaded :: "'i \<Rightarrow> string \<Rightarrow> ('i, 't) isochrone_file" where
  "unloaded ic p =
     \<lparr>priv_isochrone = ic, priv_path = p, priv_column_names = None, priv_data = None\<rparr>"

text \<open>The exception classes: an error is of the ValueError class when it is a
  ValueError (none of the other classes here derives from it), and likewise for TypeError.\<close>

definition is_ValueError :: "error \<Rightarrow> bool" where
  "is_ValueError e = (case e of ValueError m \<Rightarrow> True | _ \<Rightarrow> False)"

definition is_TypeError :: "error \<Rightarrow> bool" where
  "is_TypeError e = (case e of TypeError m \<Rightarrow> True | _ \<Rightarrow> False)"

subsection \<open>Reading the header\<close>

text \<open>\<^verbatim>\<open>(_temp[0] == '#') if _temp else False\<close>\<close>

definition is_comment :: "string \<Rightarrow> bool" where
  "is_comment temp = (case temp of [] \<Rightarrow> False | c # cs \<Rightarrow> c = HASH)"

lemma readline_length: "readline f = (l, r) \<Longrightarrow> length l + length r = length f"
  by (induction f arbitrary: l r) (auto split: if_splits prod.splits)

text \<open>
  The loop of \<^verbatim>\<open>_load_column_names\<close>, entered with \<^verbatim>\<open>_temp = '#'\<close>: \<open>f\<close> is the text of
  the file not yet read, \<open>header\<close> is \<open>None\<close> while the variable is unbound.
\<close>

function header_loop :: "string \<Rightarrow> string \<Rightarrow> string option \<Rightarrow> string option" where
  "header_loop temp f header =
     (if is_comment temp
      then (case readline f of
              (temp', f') \<Rightarrow>
                header_loop temp' f' (if is_comment temp' then Some temp' else header))
      else header)"
  by pat_completeness auto
termination
  apply (relation "measure (\<lambda>(temp, f, header). length f + (if is_comment temp then 1 else 0))")
   apply simp
  apply (auto dest!: readline_length[OF sym] simp: is_comment_def split: list.splits)
  done

declare header_loop.simps [simp del]

lemma replace_dbl_le: "length (replace_dbl h) \<le> length h"
  by (induction h rule: replace_dbl.induct) auto

lemma replace_dbl_shorter: "count_dbl h \<noteq> 0 \<Longrightarrow> length (replace_dbl h) < length h"
proof (induction h rule: count_dbl.induct)
  case (1 a b cs)
  then show ?case using replace_dbl_le[of cs] by (auto split: if_splits)
qed auto

text \<open>\<^verbatim>\<open>while header.count('  '): header = header.replace('  ', ' ')\<close>\<close>

function collapse :: "string \<Rightarrow> string" where
  "collapse header =
     (if count_dbl header \<noteq> 0 then collapse (replace_dbl header) else header)"
  by pat_completeness auto
termination
  by (relation "measure length") (auto simp: replace_dbl_shorter)

declare collapse.simps [simp del]

text \<open>The lines after the \<^verbatim>\<open>with\<close> block, on a bound \<open>header\<close>.\<close>

definition parse_header :: "string \<Rightarrow> string list" where
  "parse_header header =
     split_sp (collapse (replace_char TAB SP (strip [NL] (strip [SP] (strip [HASH] header)))))"

text \<open>
  The files on disk: a path has a text or does not exist. The text is what a file
  opened in text mode delivers.
\<close>

type_synonym filesystem = "string \<rightharpoonup> string"

text \<open>
  \<^verbatim>\<open>_load_column_names\<close>: opening a missing file raises FileNotFoundError; reading
  \<open>header\<close> while it is unbound raises UnboundLocalError. The object changes only in
  the last line, so an error leaves it as it was.
\<close>

definition load_column_names ::
  "filesystem \<Rightarrow> ('i, 't) isochrone_file \<Rightarrow> error + ('i, 't) isochrone_file" where
  "load_column_names fs self =
     (case fs (priv_path self) of
        None \<Rightarrow> Inl FileNotFoundError
      | Some content \<Rightarrow>
          (case header_loop ''#'' content None of
             None \<Rightarrow> Inl (UnboundLocalError ''header'')
           | Some header \<Rightarrow> Inr (self\<lparr>priv_column_names := Some (parse_header header)\<rparr>)))"

text \<open>
  The property \<^verbatim>\<open>column_names\<close>: the value returned (or the error raised) and the object
  afterwards. The value is the attribute itself, so its type has Python's \<^verbatim>\<open>None\<close>.
\<close>

definition column_names ::
  "filesystem \<Rightarrow> ('i, 't) isochrone_file
     \<Rightarrow> (error + string list option) \<times> ('i, 't) isochrone_file" where
  "column_names fs self =
     (case priv_column_names self of
        None \<Rightarrow>
          (case load_column_names fs self of
             Inl e \<Rightarrow> (Inl e, self)
           | Inr self' \<Rightarrow> (Inr (priv_column_names self'), self'))
      | Some names \<Rightarrow> (Inr (priv_column_names self), self))"

subsection \<open>The table library\<close>

text \<open>
  The calls into pandas and astropy, as parameters; \<open>'df\<close> is a pandas DataFrame and
  \<open>'t\<close> an astropy Table.
  \<^item> \<open>from_pandas\<close> is \<^verbatim>\<open>ascii.core.Table.from_pandas\<close>;
  \<^item> \<open>table_sort keys t\<close> is \<^verbatim>\<open>t.sort(keys)\<close>: the sorted table;
  \<^item> \<open>table_write t p fs\<close> is \<^verbatim>\<open>t.write(p, format='ascii.commented_header')\<close>: the
    files afterwards;
  \<^item> \<open>ascii_read fs p names\<close> is \<^verbatim>\<open>ascii.read(p, names=names)\<close> on the files \<open>fs\<close>.
  Each of them may raise, an exception of whatever class the library chooses.
\<close>

record ('df, 't) astropy =
  from_pandas :: "'df \<Rightarrow> error + 't"
  table_sort :: "string list \<Rightarrow> 't \<Rightarrow> error + 't"
  table_write :: "'t \<Rightarrow> string \<Rightarrow> filesystem \<Rightarrow> error + filesystem"
  ascii_read :: "filesystem \<Rightarrow> string \<Rightarrow> string list option \<Rightarrow> error + 't"

text \<open>
  \<^verbatim>\<open>_load_data\<close>: the argument \<^verbatim>\<open>self.column_names\<close> is evaluated first, and may load the
  header; what it cached stays cached when \<^verbatim>\<open>ascii.read\<close> then raises.
\<close>

definition load_data ::
  "('df, 't) astropy \<Rightarrow> filesystem \<Rightarrow> ('i, 't) isochrone_file
     \<Rightarrow> (error + unit) \<times> ('i, 't) isochrone_file" where
  "load_data lib fs self =
     (case column_names fs self of
        (Inl e, self1) \<Rightarrow> (Inl e, self1)
      | (Inr names, self1) \<Rightarrow>
          (case ascii_read lib fs (priv_path self1) names of
             Inl e \<Rightarrow> (Inl e, self1)
           | Inr t \<Rightarrow> (Inr (), self1\<lparr>priv_data := Some t\<rparr>)))"

definition data ::
  "('df, 't) astropy \<Rightarrow> filesystem \<Rightarrow> ('i, 't) isochrone_file
     \<Rightarrow> (error + 't option) \<times> ('i, 't) isochrone_file" where
  "data lib fs self =
     (case priv_data self of
        None \<Rightarrow>
          (case load_data lib fs self of
             (Inl e, self1) \<Rightarrow> (Inl e, self1)
           | (Inr u, self1) \<Rightarrow> (Inr (priv_data self1), self1))
      | Some t \<Rightarrow> (Inr (priv_data self), self))"

text \<open>\<^verbatim>\<open>__repr__\<close>\<close>

definition repr :: "('i, 't) isochrone_file \<Rightarrow> string" where
  "repr self = ''IsochroneFile(filename='' @ filename self @ '')''"

subsection \<open>Construction\<close>

text \<open>
  The class Isochrone is only named in the source (a type-checking import); the
  constructor reads its attributes \<^verbatim>\<open>_Age\<close> and \<^verbatim>\<open>_M_ini\<close>, the names of the two columns.
\<close>

record isochrone_class =
  attr_Age :: string
  attr_M_ini :: string

text \<open>A positional argument: a string, a path-like object (a \<^verbatim>\<open>pathlib.Path\<close> or another
  \<^verbatim>\<open>os.PathLike\<close>, with the path it stands for), a DataFrame, a Table, or any other object.\<close>

datatype ('df, 't) pyval =
    PyStr string | PyPath string | DataFrame 'df | Table 't | PyOther

text \<open>\<^verbatim>\<open>pathlib.Path(x)\<close>: a string or a path-like object gives the path; anything else
  is refused with a TypeError (the library's message is shortened).\<close>

definition pathlib_Path :: "('df, 't) pyval \<Rightarrow> error + string" where
  "pathlib_Path x =
     (case x of
        PyStr p \<Rightarrow> Inr p
      | PyPath p \<Rightarrow> Inr p
      | _ \<Rightarrow> Inl (TypeError ''expected str, bytes or os.PathLike object''))"

text \<open>\<^verbatim>\<open>_write_table\<close>, called while \<^verbatim>\<open>_isochrone\<close> and \<^verbatim>\<open>_path\<close> are set: the files afterwards.
  The method raises the ValueError itself; whatever the library raises passes through.\<close>

definition write_table ::
  "('df, 't) astropy \<Rightarrow> isochrone_class \<Rightarrow> string \<Rightarrow> ('df, 't) pyval \<Rightarrow> filesystem
     \<Rightarrow> error + filesystem" where
  "write_table lib ic p d fs =
     (case (case d of
              DataFrame df \<Rightarrow> from_pandas lib df
            | Table t \<Rightarrow> Inr t
            | _ \<Rightarrow> Inl (ValueError
                  ''Given data should either be a pandas DataFrame or an astropy Table''))
      of Inl e \<Rightarrow> Inl e
       | Inr t \<Rightarrow>
          (case table_sort lib [attr_Age ic, attr_M_ini ic] t of
             Inl e \<Rightarrow> Inl e
           | Inr t' \<Rightarrow> table_write lib t' p fs))"

text \<open>\<^verbatim>\<open>str(n)\<close> for the length in the message.\<close>

fun str_nat :: "nat \<Rightarrow> string" where
  "str_nat n =
     (if n < 10 then [char_of (48 + n)]
      else str_nat (n div 10) @ [char_of (48 + n mod 10)])"

text \<open>
  \<^verbatim>\<open>__init__(self, *args, isochrone=None)\<close>: the new object and the files afterwards, or
  the error; an error hands no object to the caller.
\<close>

definition init ::
  "('df, 't) astropy \<Rightarrow> ('df, 't) pyval list \<Rightarrow> isochrone_class option \<Rightarrow> filesystem
     \<Rightarrow> error + ((isochrone_class, 't) isochrone_file \<times> filesystem)" where
  "init lib args isochrone_kw fs =
     (case isochrone_kw of
        None \<Rightarrow> Inl (TypeError ''Keyword argument 'isochrone' missing'')
      | Some ic \<Rightarrow>
          (if args = [] then Inl (TypeError ''Isochrone requires at least one argument'')
           else if length args \<in> {1, 2} then
             (case pathlib_Path (args ! 0) of
                Inl e \<Rightarrow> Inl e
              | Inr p \<Rightarrow>
                  (if length args = 2 then
                     (case write_table lib ic p (args ! 1) fs of
                        Inl e \<Rightarrow> Inl e
                      | Inr fs' \<Rightarrow> Inr (unloaded ic p, fs'))
                   else Inr (unloaded ic p, fs)))
           else Inl (TypeError (''Too many arguments ('' @ str_nat (length args) @ '' given)''))))"

subsection \<open>A lifetime of accesses\<close>

text \<open>
  The properties of the class. Reading one leaves the object in some state, whether it
  returned or raised; only \<^verbatim>\<open>column_names\<close> and \<^verbatim>\<open>data\<close> assign attributes. A lifetime
  is a list of reads, each with the files as they are at that moment.
\<close>

datatype property =
    P_path | P_filename | P_metallicity | P_column_names | P_data | P_isochrone | P_repr

definition access ::
  "('df, 't) astropy \<Rightarrow> filesystem \<Rightarrow> property \<Rightarrow> ('i, 't) isochrone_file
     \<Rightarrow> ('i, 't) isochrone_file" where
  "access lib fs which self =
     (case which of
        P_column_names \<Rightarrow> snd (column_names fs self)
      | P_data \<Rightarrow> snd (data lib fs self)
      | _ \<Rightarrow> self)"

fun lifetime ::
  "('df, 't) astropy \<Rightarrow> (filesystem \<times> property) list \<Rightarrow> ('i, 't) isochrone_file
     \<Rightarrow> ('i, 't) isochrone_file" where
  "lifetime lib [] self = self"
| "lifetime lib ((fs, which) # rest) self = lifetime lib rest (access lib fs which self)"

text \<open>A positional argument that \<^verbatim>\<open>pathlib.Path\<close> accepts.\<close>

definition is_pathlike :: "('df, 't) pyval \<Rightarrow> bool" where
  "is_pathlike x = (case x of PyStr p \<Rightarrow> True | PyPath p \<Rightarrow> True | _ \<Rightarrow> False)"

text \<open>A result that is an error of the TypeError class.\<close>

definition raised_TypeError :: "error + 'a \<Rightarrow> bool" where
  "raised_TypeError r = (case r of Inl e \<Rightarrow> is_TypeError e | Inr x \<Rightarrow> False)"

text \<open>
  One of the library calls of \<^verbatim>\<open>_write_table\<close> raises a TypeError: the conversion of a
  DataFrame, else the sort, else the write.
\<close>

definition sort_write_raises_TypeError ::
  "('df, 't) astropy \<Rightarrow> isochrone_class \<Rightarrow> string \<Rightarrow> 't \<Rightarrow> filesystem \<Rightarrow> bool" where
  "sort_write_raises_TypeError lib ic p t fs =
     (case table_sort lib [attr_Age ic, attr_M_ini ic] t of
        Inl e \<Rightarrow> is_TypeError e
      | Inr t' \<Rightarrow> raised_TypeError (table_write lib t' p fs))"

definition library_raises_TypeError ::
  "('df, 't) astropy \<Rightarrow> isochrone_class \<Rightarrow> string \<Rightarrow> ('df, 't) pyval \<Rightarrow> filesystem
     \<Rightarrow> bool" where
  "library_raises_TypeError lib ic p d fs =
     (case d of
        DataFrame df \<Rightarrow>
          (case from_pandas lib df of
             Inl e \<Rightarrow> is_TypeError e
           | Inr t \<Rightarrow> sort_write_raises_TypeError lib ic p t fs)
      | Table t \<Rightarrow> sort_write_raises_TypeError lib ic p t fs
      | _ \<Rightarrow> False)"

text \<open>The construction raises an error of the TypeError class.\<close>

definition init_raises_TypeError ::
  "('df, 't) astropy \<Rightarrow> ('df, 't) pyval list \<Rightarrow> isochrone_class option \<Rightarrow> filesystem
     \<Rightarrow> bool" where
  "init_raises_TypeError lib args isochrone_kw fs =
     raised_TypeError (init lib args isochrone_kw fs)"

subsection \<open>A small table library to run examples\<close>

text \<open>
  A stand-in for pandas and astropy, used only to evaluate examples: a table is its
  column names and its rows of natural numbers; sorting is by the two key columns, the
  first key first; writing puts the commented header and one line per row; reading
  takes the lines that are no comments and checks the number of fields.
\<close>

type_synonym demo_table = "string list \<times> nat list list"

fun index_of :: "'a \<Rightarrow> 'a list \<Rightarrow> nat option" where
  "index_of x [] = None"
| "index_of x (y # ys) = (if x = y then Some 0 else map_option Suc (index_of x ys))"

definition demo_sort :: "string list \<Rightarrow> demo_table \<Rightarrow> error + demo_table" where
  "demo_sort keys t =
     (case keys of
        [k1, k2] \<Rightarrow>
          (case index_of k1 (fst t) of
             None \<Rightarrow> Inl (ValueError k1)
           | Some i \<Rightarrow>
               (case index_of k2 (fst t) of
                  None \<Rightarrow> Inl (ValueError k2)
                | Some j \<Rightarrow>
                    Inr (fst t, sort_key (\<lambda>r. r ! i) (sort_key (\<lambda>r. r ! j) (snd t)))))
      | _ \<Rightarrow> Inl (ValueError ''keys''))"

definition demo_render :: "demo_table \<Rightarrow> string" where
  "demo_render t =
     ''# '' @ join_sp (fst t) @ [NL] @
     concat (map (\<lambda>r. join_sp (map str_nat r) @ [NL]) (snd t))"

fun split_nl :: "string \<Rightarrow> string list" where
  "split_nl [] = [[]]"
| "split_nl (c # cs) =
     (if c = NL then [] # split_nl cs
      else (case split_nl cs of w # ws \<Rightarrow> (c # w) # ws | [] \<Rightarrow> [[c]]))"

definition nat_of_str :: "string \<Rightarrow> nat" where
  "nat_of_str s = foldl (\<lambda>a c. 10 * a + (of_char c - 48)) 0 s"

definition demo_read :: "filesystem \<Rightarrow> string \<Rightarrow> string list option \<Rightarrow> error + demo_table" where
  "demo_read fs p names =
     (case fs p of
        None \<Rightarrow> Inl FileNotFoundError
      | Some content \<Rightarrow>
          (case names of
             None \<Rightarrow> Inl (ValueError ''names'')
           | Some ns \<Rightarrow>
               (let rows = map (\<lambda>l. map nat_of_str (split_sp l))
                             (filter (\<lambda>l. l \<noteq> [] \<and> \<not> is_comment l) (split_nl content))
                in if list_all (\<lambda>r. length r = length ns) rows then Inr (ns, rows)
                   else Inl (ValueError ''columns''))))"

definition demo_lib :: "(demo_table, demo_table) astropy" where
  "demo_lib =
     \<lparr>from_pandas = Inr,
      table_sort = demo_sort,
      table_write = (\<lambda>t p fs. Inr (fs(p \<mapsto> demo_render t))),
      ascii_read = demo_read\<rparr>"

text \<open>
  A stand-in for Python's \<^verbatim>\<open>float\<close> on the texts of the examples: a plain decimal
  literal (a sign, digits, at most one point) is read as the number it denotes, of which
  \<^verbatim>\<open>float\<close> returns the nearest double; any other text is refused here with the
  ValueError that \<^verbatim>\<open>float\<close> raises on what is no number.
\<close>

definition is_digit :: "char \<Rightarrow> bool" where
  "is_digit c = (48 \<le> (of_char c :: nat) \<and> (of_char c :: nat) \<le> 57)"

definition decimal_float :: "string \<Rightarrow> error + real" where
  "decimal_float s =
     (let body = (case s of c # r \<Rightarrow> if c = CHR ''-'' \<or> c = CHR ''+'' then r else s | [] \<Rightarrow> s);
          ip = takeWhile (\<lambda>c. c \<noteq> CHR ''.'') body;
          fp = drop 1 (dropWhile (\<lambda>c. c \<noteq> CHR ''.'') body);
          v = real (nat_of_str (ip @ fp)) / 10 ^ length fp
      in if ip @ fp \<noteq> [] \<and> list_all is_digit (ip @ fp)
         then Inr (if take 1 s = ''-'' then - v else v)
         else Inl (ValueError ''could not convert string to float''))"

text \<open>An example file: the header and two rows.\<close>

definition demo_text :: string where
  "demo_text = ''# Age M_ini'' @ [NL] @ ''2 1'' @ [NL] @ ''1 5'' @ [NL]"

definition demo_isochrone :: isochrone_class where
  "demo_isochrone = \<lparr>attr_Age = ''Age'', attr_M_ini = ''M_ini''\<rparr>"

section \<open>The public entry point\<close>

text \<open>
  \<^verbatim>\<open>make_survey_from_particles(*args, pname=None, kname=None, ...)\<close>. The classes Input and
  Survey are imported from modules that are not among the sources, so their constructors
  are parameters. Which constructor call of Input is made is a value of its own:
  \<^verbatim>\<open>Input(pname=pname, kname=kname)\<close> or \<^verbatim>\<open>Input(*args, name=simname, knorm=knorm, ngb=ngb)\<close>.
\<close>

datatype 'a input_call =
    Prebuilt string string
  | FromArrays "'a list" string real nat

text \<open>
  The \<^verbatim>\<open>if\<close>/\<^verbatim>\<open>elif\<close> with no \<^verbatim>\<open>else\<close>: when neither branch is taken, the local
  variable \<^verbatim>\<open>input\<close> is read unbound on the next line, an UnboundLocalError.
\<close>

definition select_input ::
  "'a list \<Rightarrow> string option \<Rightarrow> string option \<Rightarrow> string \<Rightarrow> real \<Rightarrow> nat
     \<Rightarrow> error + 'a input_call" where
  "select_input args pname kname simname knorm ngb =
     (case pname of
        Some p \<Rightarrow>
          (case kname of
             Some k \<Rightarrow> Inr (Prebuilt p k)
           | None \<Rightarrow>
               if length args = 3 then Inr (FromArrays args simname knorm ngb)
               else Inl (UnboundLocalError ''input''))
      | None \<Rightarrow>
          if length args = 3 then Inr (FromArrays args simname knorm ngb)
          else Inl (UnboundLocalError ''input''))"

record ('a, 'inp, 'sv, 'out) package =
  Input :: "'a input_call \<Rightarrow> error + 'inp"
  Survey :: "'inp \<Rightarrow> string list \<Rightarrow> string \<Rightarrow> error + 'sv"
  engine :: "'sv \<Rightarrow> string \<Rightarrow> real \<Rightarrow> (string \<times> string) list \<Rightarrow> error + 'out"

text \<open>
  Modelled from the spec: \<^verbatim>\<open>Survey.make_survey\<close> is in a module that is not among the
  sources. The spec has the known control parameters satisfy their range constraints,
  the sample fraction in [0, 1], and has all validation of what the caller supplied
  happen before any file is written or any subprocess is started; it names no error
  class for the rejection. Past the validation the survey is generated by \<open>engine\<close>.
\<close>

definition make_survey ::
  "('a, 'inp, 'sv, 'out) package \<Rightarrow> 'sv \<Rightarrow> string \<Rightarrow> real \<Rightarrow> (string \<times> string) list
     \<Rightarrow> error + 'out" where
  "make_survey pkg survey cmd_magnames fsample kwargs =
     (if fsample < 0 \<or> 1 < fsample then Inl (ParameterError ''fsample'')
      else engine pkg survey cmd_magnames fsample kwargs)"

definition make_survey_from_particles ::
  "('a, 'inp, 'sv, 'out) package \<Rightarrow> 'a list \<Rightarrow> string option \<Rightarrow> string option
     \<Rightarrow> string list \<Rightarrow> string \<Rightarrow> string \<Rightarrow> string \<Rightarrow> real \<Rightarrow> nat \<Rightarrow> real
     \<Rightarrow> (string \<times> string) list \<Rightarrow> error + 'out" where
  "make_survey_from_particles pkg args pname kname photo_sys cmd_magnames simname surveyname
       fsample ngb knorm kwargs =
     (case select_input args pname kname simname knorm ngb of
        Inl e \<Rightarrow> Inl e
      | Inr call \<Rightarrow>
          (case Input pkg call of
             Inl e \<Rightarrow> Inl e
           | Inr inp \<Rightarrow>
               (case Survey pkg inp photo_sys surveyname of
                  Inl e \<Rightarrow> Inl e
                | Inr survey \<Rightarrow> make_survey pkg survey cmd_magnames fsample kwargs)))"

text \<open>Collaborators that always succeed, to run examples: every constructor hands on what
  it was given, and the engine returns the survey's input.\<close>

definition demo_package :: "(unit, unit input_call, unit input_call, unit input_call) package" where
  "demo_package =
     \<lparr>Input = Inr,
      Survey = (\<lambda>inp photo_sys surveyname. Inr inp),
      engine = (\<lambda>survey cmd_magnames fsample kwargs. Inr survey)\<rparr>"

section \<open>Words for the statements\<close>

subsection \<open>The shape of a header\<close>

text \<open>
  Words to state what a file looks like. A header line carries names with separators
  between them: \<open>header_text w rest\<close> is the first name \<open>w\<close> followed by each
  separator and name of \<open>rest\<close>. A name is not empty and has no space, tab or newline;
  a separator is a non-empty run of spaces and tabs. A comment block is a sequence of
  lines that each begin with the marker and end with a newline.
\<close>

fun header_text :: "string \<Rightarrow> (string \<times> string) list \<Rightarrow> string" where
  "header_text w [] = w"
| "header_text w ((sep, w') # rest) = w @ sep @ header_text w' rest"

definition proper_name :: "string \<Rightarrow> bool" where
  "proper_name n = (n \<noteq> [] \<and> SP \<notin> set n \<and> TAB \<notin> set n \<and> NL \<notin> set n)"

definition proper_sep :: "string \<Rightarrow> bool" where
  "proper_sep s = (s \<noteq> [] \<and> set s \<subseteq> {SP, TAB})"

definition comment_block :: "string list \<Rightarrow> string" where
  "comment_block ls = concat (map (\<lambda>l. HASH # l @ [NL]) ls)"

text \<open>The words of a split that are not empty, and a text that neither begins nor ends
  with a space: used in the proofs about the header.\<close>

definition wordsl :: "string list \<Rightarrow> string list" where
  "wordsl l = filter (\<lambda>w. w \<noteq> []) l"

definition edges_ok :: "string \<Rightarrow> bool" where
  "edges_ok s = (s \<noteq> [] \<and> hd s \<noteq> SP \<and> last s \<noteq> SP)"

section \<open>The metallicity property\<close>

subsection \<open>What the pattern matches\<close>

lemma file_format_pieces: "file_format = format_prefix @ ''{}'' @ format_suffix"
  by (simp add: file_format_def format_prefix_def format_suffix_def)

lemma lookahead_iff: "lookahead cs \<longleftrightarrow> (\<exists>c b. cs = c # ''dat'' @ b \<and> c \<noteq> NL)"
  unfolding lookahead_def format_suffix_def
  apply (cases cs; simp add: re_char_def)
  subgoal for a l1 apply (cases l1; simp add: re_char_def)
    subgoal for a2 l2 apply (cases l2; simp add: re_char_def)
      subgoal for a3 l3 apply (cases l3; simp add: re_char_def) by auto
      done
    done
  done

lemma re_here_literal:
  "CHR ''.'' \<notin> set p \<Longrightarrow> length cs = length p \<Longrightarrow> re_here p cs \<longleftrightarrow> cs = p"
  by (induction p cs rule: re_here.induct) (auto simp: re_char_def)

lemma lookbehind_iff: "lookbehind pre \<longleftrightarrow> (\<exists>a. pre = a @ format_prefix)"
proof
  assume h: "lookbehind pre"
  then have len: "length format_prefix \<le> length pre"
    and m: "re_here format_prefix (drop (length pre - length format_prefix) pre)"
    by (simp_all add: lookbehind_def)
  have "CHR ''.'' \<notin> set format_prefix" by (simp add: format_prefix_def)
  moreover have "length (drop (length pre - length format_prefix) pre) = length format_prefix"
    using len by simp
  ultimately have "drop (length pre - length format_prefix) pre = format_prefix"
    using m re_here_literal by blast
  then have "pre = take (length pre - length format_prefix) pre @ format_prefix"
    by (metis append_take_drop_id)
  then show "\<exists>a. pre = a @ format_prefix" by blast
next
  assume "\<exists>a. pre = a @ format_prefix"
  then obtain a where "pre = a @ format_prefix" by blast
  moreover have "re_here format_prefix format_prefix"
    by (simp add: format_prefix_def re_char_def)
  ultimately show "lookbehind pre" by (simp add: lookbehind_def)
qed

lemma dot_star_append:
  "NL \<notin> set v \<Longrightarrow> dot_star t = Some m \<Longrightarrow> dot_star (v @ t) = Some (v @ m)"
  by (induction v) auto

lemma dot_star_suffix: "dot_star format_suffix = Some []"
  by (simp add: lookahead_def format_suffix_def re_char_def)

lemma first_match_here:
  "lookbehind pre \<Longrightarrow> dot_star s = Some m \<Longrightarrow> first_match pre s = Some m"
  by (cases s) auto

lemma first_match_prefix:
  "first_match [] (format_prefix @ s) = first_match format_prefix s"
  by (simp add: lookbehind_def format_prefix_def)

lemma first_match_template:
  assumes "NL \<notin> set v"
  shows "first_match [] (format_prefix @ v @ format_suffix) = Some v"
proof -
  have "dot_star (v @ format_suffix) = Some (v @ [])"
    using assms dot_star_suffix by (rule dot_star_append)
  moreover have "lookbehind format_prefix"
    using lookbehind_iff[of format_prefix] by simp
  ultimately have "first_match format_prefix (v @ format_suffix) = Some v"
    using first_match_here by simp
  then show ?thesis by (simp add: first_match_prefix)
qed

lemma dot_star_None_iff:
  "dot_star cs = None \<longleftrightarrow>
   \<not> (\<exists>v c b. cs = v @ c # ''dat'' @ b \<and> NL \<notin> set v \<and> c \<noteq> NL)"
proof (induction cs)
  case Nil
  then show ?case by (simp add: lookahead_iff)
next
  case (Cons x xs)
  have dec: "(\<exists>v c b. x # xs = v @ c # ''dat'' @ b \<and> NL \<notin> set v \<and> c \<noteq> NL) \<longleftrightarrow>
     lookahead (x # xs) \<or> (x \<noteq> NL \<and> (\<exists>v c b. xs = v @ c # ''dat'' @ b \<and> NL \<notin> set v \<and> c \<noteq> NL))"
    (is "?L \<longleftrightarrow> ?R")
  proof
    assume ?L
    then obtain v c b where e: "x # xs = v @ c # ''dat'' @ b" and nv: "NL \<notin> set v" and nc: "c \<noteq> NL"
      by blast
    show ?R
    proof (cases v)
      case Nil
      then show ?thesis using e nc by (auto simp: lookahead_iff)
    next
      case (Cons y ys)
      then have "x = y" "xs = ys @ c # ''dat'' @ b" using e by simp_all
      then show ?thesis using nv nc Cons by auto
    qed
  next
    assume ?R
    then show ?L
    proof
      assume "lookahead (x # xs)"
      then obtain c b where "x # xs = [] @ c # ''dat'' @ b" "c \<noteq> NL"
        by (auto simp: lookahead_iff)
      then show ?L by (metis empty_iff list.set(1))
    next
      assume "x \<noteq> NL \<and> (\<exists>v c b. xs = v @ c # ''dat'' @ b \<and> NL \<notin> set v \<and> c \<noteq> NL)"
      then obtain v c b where "xs = v @ c # ''dat'' @ b" "NL \<notin> set v" "c \<noteq> NL" "x \<noteq> NL"
        by blast
      then have "x # xs = (x # v) @ c # ''dat'' @ b \<and> NL \<notin> set (x # v) \<and> c \<noteq> NL"
        by simp
      then show ?L by blast
    qed
  qed
  show ?case unfolding dec using Cons.IH by (auto split: option.splits)
qed

lemma first_match_None_iff:
  "first_match pre s = None \<longleftrightarrow>
   (\<forall>a b. s = a @ b \<longrightarrow> \<not> lookbehind (pre @ a) \<or> dot_star b = None)"
proof (induction s arbitrary: pre)
  case Nil
  then show ?case by auto
next
  case (Cons x xs)
  have split: "(\<forall>a b. x # xs = a @ b \<longrightarrow> \<not> lookbehind (pre @ a) \<or> dot_star b = None) \<longleftrightarrow>
     (\<not> lookbehind pre \<or> dot_star (x # xs) = None) \<and>
     (\<forall>a b. xs = a @ b \<longrightarrow> \<not> lookbehind ((pre @ [x]) @ a) \<or> dot_star b = None)"
    (is "?L \<longleftrightarrow> ?R1 \<and> ?R2")
  proof (intro iffI conjI)
    assume l: ?L
    show ?R1 using l[rule_format, of "[]" "x # xs"] by simp
    show ?R2
    proof (intro allI impI)
      fix a b assume "xs = a @ b"
      then show "\<not> lookbehind ((pre @ [x]) @ a) \<or> dot_star b = None"
        using l[rule_format, of "x # a" b] by simp
    qed
  next
    assume r: "?R1 \<and> ?R2"
    show ?L
    proof (intro allI impI)
      fix a b assume e: "x # xs = a @ b"
      show "\<not> lookbehind (pre @ a) \<or> dot_star b = None"
      proof (cases a)
        case Nil
        then show ?thesis using r e by auto
      next
        case (Cons y ys)
        then have "xs = ys @ b" "y = x" using e by simp_all
        then show ?thesis using r Cons by (metis append.assoc append_Cons append_Nil)
      qed
    qed
  qed
  show ?case unfolding split using Cons.IH[of "pre @ [x]"] by (auto split: option.splits)
qed

lemma first_match_None_template:
  "first_match [] s = None \<longleftrightarrow>
   \<not> (\<exists>a v c b. s = a @ format_prefix @ v @ c # ''dat'' @ b \<and> NL \<notin> set v \<and> c \<noteq> NL)"
  (is "?L \<longleftrightarrow> \<not> ?R")
proof -
  have "(\<not> ?L) \<longleftrightarrow> (\<exists>a b. s = a @ b \<and> lookbehind a \<and> dot_star b \<noteq> None)"
    by (simp add: first_match_None_iff)
  also have "\<dots> \<longleftrightarrow> ?R"
  proof
    assume "\<exists>a b. s = a @ b \<and> lookbehind a \<and> dot_star b \<noteq> None"
    then obtain a b where s: "s = a @ b" and lb: "lookbehind a" and ds: "dot_star b \<noteq> None"
      by blast
    from lb obtain a' where a: "a = a' @ format_prefix" by (auto simp: lookbehind_iff)
    have "\<exists>v c r. b = v @ c # ''dat'' @ r \<and> NL \<notin> set v \<and> c \<noteq> NL"
      using ds dot_star_None_iff[of b] by simp
    then obtain v c r where b: "b = v @ c # ''dat'' @ r" and n: "NL \<notin> set v" "c \<noteq> NL"
      by blast
    have "s = a' @ format_prefix @ v @ c # ''dat'' @ r" using s a b by simp
    then show ?R using n by blast
  next
    assume ?R
    then obtain a v c b where s: "s = a @ format_prefix @ v @ c # ''dat'' @ b"
      and n: "NL \<notin> set v" "c \<noteq> NL" by blast
    have "lookbehind (a @ format_prefix)" by (auto simp: lookbehind_iff)
    moreover have "\<exists>v' c' b'. v @ c # ''dat'' @ b = v' @ c' # ''dat'' @ b' \<and> NL \<notin> set v' \<and> c' \<noteq> NL"
      using n by blast
    then have "dot_star (v @ c # ''dat'' @ b) \<noteq> None"
      using dot_star_None_iff[of "v @ c # ''dat'' @ b"] by simp
    moreover have "s = (a @ format_prefix) @ (v @ c # ''dat'' @ b)" using s by simp
    ultimately show "\<exists>a b. s = a @ b \<and> lookbehind a \<and> dot_star b \<noteq> None" by blast
  qed
  finally show ?thesis by blast
qed

text \<open>What a match is: the text found is followed by one character and \<^verbatim>\<open>dat\<close>, holds
  no newline, and is the longest such text from where it starts; the scan returns the
  match at the first position that has one.\<close>

lemma lookahead_Nil: "\<not> lookahead []"
  by (simp add: lookahead_def format_suffix_def)

lemma dot_star_Some:
  "dot_star r = Some m \<Longrightarrow>
   (\<exists>c b. r = m @ c # ''dat'' @ b \<and> NL \<notin> set m \<and> c \<noteq> NL) \<and>
   (\<forall>v c b. r = v @ c # ''dat'' @ b \<and> NL \<notin> set v \<and> c \<noteq> NL \<longrightarrow> length v \<le> length m)"
proof (induction r arbitrary: m)
  case Nil
  then show ?case by (simp add: lookahead_Nil)
next
  case (Cons x xs)
  show ?case
  proof (cases "x \<noteq> NL \<and> dot_star xs \<noteq> None")
    case True
    then obtain k where k: "dot_star xs = Some k" and x: "x \<noteq> NL" by auto
    then have m: "m = x # k" using Cons.prems by simp
    note ih = Cons.IH[OF k]
    from ih obtain c b where e: "xs = k @ c # ''dat'' @ b" and nk: "NL \<notin> set k" and nc: "c \<noteq> NL"
      by blast
    have first: "\<exists>c b. x # xs = m @ c # ''dat'' @ b \<and> NL \<notin> set m \<and> c \<noteq> NL"
      using e nk nc x m by simp
    have second: "\<forall>v c b. x # xs = v @ c # ''dat'' @ b \<and> NL \<notin> set v \<and> c \<noteq> NL
        \<longrightarrow> length v \<le> length m"
    proof (intro allI impI)
      fix v c b
      assume a: "x # xs = v @ c # ''dat'' @ b \<and> NL \<notin> set v \<and> c \<noteq> NL"
      show "length v \<le> length m"
      proof (cases v)
        case Nil
        then show ?thesis by simp
      next
        case (Cons y ys)
        then have "xs = ys @ c # ''dat'' @ b \<and> NL \<notin> set ys \<and> c \<noteq> NL" using a by simp
        then have "length ys \<le> length k" using ih by blast
        then show ?thesis using Cons m by simp
      qed
    qed
    show ?thesis using first second by blast
  next
    case False
    then have la: "lookahead (x # xs)" and m: "m = []"
      using Cons.prems by (auto split: option.splits if_splits)
    from la obtain c b where e: "x # xs = c # ''dat'' @ b" and nc: "c \<noteq> NL"
      by (auto simp: lookahead_iff)
    have first: "\<exists>c b. x # xs = m @ c # ''dat'' @ b \<and> NL \<notin> set m \<and> c \<noteq> NL"
      using e nc m by simp
    have second: "\<forall>v c b. x # xs = v @ c # ''dat'' @ b \<and> NL \<notin> set v \<and> c \<noteq> NL
        \<longrightarrow> length v \<le> length m"
    proof (intro allI impI)
      fix v c b
      assume a: "x # xs = v @ c # ''dat'' @ b \<and> NL \<notin> set v \<and> c \<noteq> NL"
      show "length v \<le> length m"
      proof (cases v)
        case Nil
        then show ?thesis by simp
      next
        case (Cons y ys)
        then have o: "xs = ys @ c # ''dat'' @ b \<and> NL \<notin> set ys \<and> c \<noteq> NL" and "x \<noteq> NL"
          using a by auto
        then have "dot_star xs \<noteq> None" using dot_star_None_iff[of xs] by blast
        then show ?thesis using False \<open>x \<noteq> NL\<close> by simp
      qed
    qed
    show ?thesis using first second by blast
  qed
qed


lemma first_match_Some:
  "first_match pre s = Some m \<Longrightarrow>
   \<exists>a r. s = a @ r \<and> lookbehind (pre @ a) \<and> dot_star r = Some m \<and>
     (\<forall>a' r'. s = a' @ r' \<and> length a' < length a
        \<longrightarrow> \<not> lookbehind (pre @ a') \<or> dot_star r' = None)"
proof (induction s arbitrary: pre)
  case Nil
  then show ?case by (simp add: lookahead_Nil split: if_splits)
next
  case (Cons x xs)
  define here where "here = (if lookbehind pre then dot_star (x # xs) else None)"
  have fm: "first_match pre (x # xs)
      = (case here of Some m \<Rightarrow> Some m | None \<Rightarrow> first_match (pre @ [x]) xs)"
    unfolding here_def by (simp only: first_match.simps)
  show ?case
  proof (cases here)
    case (Some k)
    then have "m = k" using Cons.prems fm by (simp only: option.case option.inject)
    moreover have lbp: "lookbehind pre"
      using Some unfolding here_def by (cases "lookbehind pre") (simp_all del: dot_star.simps)
    moreover have "dot_star (x # xs) = Some k"
      using Some lbp unfolding here_def by (simp del: dot_star.simps)
    ultimately have "x # xs = [] @ (x # xs) \<and> lookbehind (pre @ []) \<and>
        dot_star (x # xs) = Some m \<and>
        (\<forall>a' r'. x # xs = a' @ r' \<and> length a' < length ([] :: string)
           \<longrightarrow> \<not> lookbehind (pre @ a') \<or> dot_star r' = None)"
      by (simp del: dot_star.simps)
    then show ?thesis by (intro exI)
  next
    case None
    then have "first_match (pre @ [x]) xs = Some m"
      using Cons.prems fm by (simp only: option.case)
    from Cons.IH[OF this] obtain a r where ih: "xs = a @ r \<and>
        lookbehind ((pre @ [x]) @ a) \<and> dot_star r = Some m \<and>
        (\<forall>a' r'. xs = a' @ r' \<and> length a' < length a
          \<longrightarrow> \<not> lookbehind ((pre @ [x]) @ a') \<or> dot_star r' = None)"
      by (elim exE)
    note lm = conjunct2[OF conjunct2[OF conjunct2[OF ih]]]
    have not_here: "\<not> lookbehind pre \<or> dot_star (x # xs) = None"
      using None unfolding here_def by (cases "lookbehind pre") (simp_all del: dot_star.simps)
    have lm': "\<forall>a' r'. x # xs = a' @ r' \<and> length a' < length (x # a)
        \<longrightarrow> \<not> lookbehind (pre @ a') \<or> dot_star r' = None"
    proof (intro allI impI)
      fix a' r'
      assume h: "x # xs = a' @ r' \<and> length a' < length (x # a)"
      show "\<not> lookbehind (pre @ a') \<or> dot_star r' = None"
      proof (cases a')
        case Nil
        then have "r' = x # xs" using h by simp
        then show ?thesis using not_here Nil by (simp del: dot_star.simps)
      next
        case (Cons y ys)
        then have "xs = ys @ r' \<and> length ys < length a" and "y = x" using h by simp_all
        then have "\<not> lookbehind ((pre @ [x]) @ ys) \<or> dot_star r' = None"
          using lm[rule_format, of ys r'] by (simp only:)
        then show ?thesis using Cons \<open>y = x\<close> by (simp del: dot_star.simps)
      qed
    qed
    have "x # xs = (x # a) @ r \<and> lookbehind (pre @ (x # a)) \<and> dot_star r = Some m"
      using ih by (simp del: dot_star.simps)
    then have "x # xs = (x # a) @ r \<and> lookbehind (pre @ (x # a)) \<and> dot_star r = Some m \<and>
      (\<forall>a' r'. x # xs = a' @ r' \<and> length a' < length (x # a)
        \<longrightarrow> \<not> lookbehind (pre @ a') \<or> dot_star r' = None)"
      using lm' by (simp only: simp_thms)
    then show ?thesis by (intro exI)
  qed
qed

lemma first_match_occurrence:
  assumes "first_match [] s = Some m"
  shows "\<exists>a c b. s = a @ format_prefix @ m @ c # ''dat'' @ b \<and> NL \<notin> set m \<and> c \<noteq> NL \<and>
     (\<forall>a' v' c' b'. s = a' @ format_prefix @ v' @ c' # ''dat'' @ b' \<and> NL \<notin> set v' \<and> c' \<noteq> NL
        \<longrightarrow> length a < length a' \<or> (a' = a \<and> length v' \<le> length m))"
proof -
  from first_match_Some[OF assms] obtain a0 r where f: "s = a0 @ r \<and> lookbehind ([] @ a0) \<and>
      dot_star r = Some m \<and>
      (\<forall>a' r'. s = a' @ r' \<and> length a' < length a0
         \<longrightarrow> \<not> lookbehind ([] @ a') \<or> dot_star r' = None)"
    by (elim exE)
  note s = conjunct1[OF f]
  have lb: "lookbehind a0" using conjunct1[OF conjunct2[OF f]] by simp
  note ds = conjunct1[OF conjunct2[OF conjunct2[OF f]]]
  note q = conjunct2[OF conjunct2[OF conjunct2[OF f]]]
  have lm: "dot_star r' = None"
    if "s = a' @ r'" and "length a' < length a0" and "lookbehind a'" for a' r'
    using q[rule_format, of a' r'] that by simp
  from lb obtain a where a: "a0 = a @ format_prefix" by (auto simp: lookbehind_iff)
  note g = dot_star_Some[OF ds]
  from conjunct1[OF g] obtain c b where r: "r = m @ c # ''dat'' @ b \<and> NL \<notin> set m \<and> c \<noteq> NL"
    by (elim exE)
  have lg: "length v \<le> length m"
    if "r = v @ k # ''dat'' @ e \<and> NL \<notin> set v \<and> k \<noteq> NL" for v k e
    using conjunct2[OF g, rule_format, OF that] .
  have occ: "s = a @ format_prefix @ m @ c # ''dat'' @ b"
    using s a conjunct1[OF r] by simp
  have best: "length a < length a' \<or> (a' = a \<and> length v' \<le> length m)"
    if h: "s = a' @ format_prefix @ v' @ c' # ''dat'' @ b' \<and> NL \<notin> set v' \<and> c' \<noteq> NL"
    for a' v' c' b'
  proof -
    have s': "s = (a' @ format_prefix) @ (v' @ c' # ''dat'' @ b')"
      using conjunct1[OF h] by simp
    have lb': "lookbehind (a' @ format_prefix)"
      unfolding lookbehind_iff by (rule exI[of _ a']) (rule refl)
    have "\<exists>v c b. v' @ c' # ''dat'' @ b' = v @ c # ''dat'' @ b \<and> NL \<notin> set v \<and> c \<noteq> NL"
      using conjunct2[OF h] by (intro exI[of _ v'] exI[of _ c'] exI[of _ b']) simp
    then have ds': "dot_star (v' @ c' # ''dat'' @ b') \<noteq> None"
      using dot_star_None_iff[of "v' @ c' # ''dat'' @ b'"] by simp
    have "\<not> length (a' @ format_prefix) < length a0"
    proof
      assume "length (a' @ format_prefix) < length a0"
      from lm[OF s' this lb'] ds' show False by simp
    qed
    then have le: "length a \<le> length a'" using a by simp
    show ?thesis
    proof (cases "length a < length a'")
      case True
      then show ?thesis by simp
    next
      case False
      then have "length a' = length a" using le by simp
      moreover have "a' @ (format_prefix @ v' @ c' # ''dat'' @ b') = a @ (format_prefix @ r)"
        using conjunct1[OF h] s a by simp
      ultimately have e: "a' = a" "format_prefix @ v' @ c' # ''dat'' @ b' = format_prefix @ r"
        by simp_all
      from e(2) have "r = v' @ c' # ''dat'' @ b'" by simp
      then have "r = v' @ c' # ''dat'' @ b' \<and> NL \<notin> set v' \<and> c' \<noteq> NL"
        using conjunct2[OF h] by simp
      then have "length v' \<le> length m" by (rule lg)
      then show ?thesis using e(1) by simp
    qed
  qed
  have "s = a @ format_prefix @ m @ c # ''dat'' @ b \<and> NL \<notin> set m \<and> c \<noteq> NL \<and>
     (\<forall>a' v' c' b'. s = a' @ format_prefix @ v' @ c' # ''dat'' @ b' \<and> NL \<notin> set v' \<and> c' \<noteq> NL
        \<longrightarrow> length a < length a' \<or> (a' = a \<and> length v' \<le> length m))"
  proof (intro conjI allI impI)
    show "s = a @ format_prefix @ m @ c # ''dat'' @ b" by (rule occ)
    show "NL \<notin> set m" using r by simp
    show "c \<noteq> NL" using r by simp
  next
    fix a' v' c' b'
    assume "s = a' @ format_prefix @ v' @ c' # ''dat'' @ b' \<and> NL \<notin> set v' \<and> c' \<noteq> NL"
    then show "length a < length a' \<or> (a' = a \<and> length v' \<le> length m)" by (rule best)
  qed
  then show ?thesis by (intro exI)
qed

subsection \<open>Filenames of the template\<close>

text \<open>
  C1 (as amended). For every IsochroneFile whose filename is \<^verbatim>\<open>output_<value>.dat\<close> with
  no newline character in the value, the metallicity property returns what Python's
  \<^verbatim>\<open>float\<close> returns on the text between the prefix \<^verbatim>\<open>output_\<close> and the suffix
  \<^verbatim>\<open>.dat\<close>. For \<^verbatim>\<open>output_0.0190.dat\<close> that text is \<^verbatim>\<open>0.0190\<close>, read as 0.019, for
  \<^verbatim>\<open>output_-0.5.dat\<close> it is \<^verbatim>\<open>-0.5\<close>, read as -0.5.
\<close>

theorem metallicity_template:
  assumes "filename self = ''output_'' @ v @ ''.dat''" and "NL \<notin> set v"
  shows "metallicity float self = float v"
proof -
  have "first_match [] (filename self) = Some v"
    using first_match_template[OF assms(2)] assms(1)
    by (simp add: format_prefix_def format_suffix_def)
  then show ?thesis by (simp add: metallicity_def)
qed

theorem metallicity_template_witness:
  "metallicity decimal_float
     (unloaded () ''isochrones/PS1/output_0.0190.dat'' :: (unit, unit) isochrone_file)
     = Inr 0.019 \<and>
   metallicity decimal_float (unloaded () ''output_-0.5.dat'' :: (unit, unit) isochrone_file)
     = Inr (- 0.5)"
proof -
  have a: "filename (unloaded () ''isochrones/PS1/output_0.0190.dat'' :: (unit, unit) isochrone_file)
      = ''output_'' @ ''0.0190'' @ ''.dat''"
    by (simp add: filename_def unloaded_def path_name_def)
  have b: "filename (unloaded () ''output_-0.5.dat'' :: (unit, unit) isochrone_file)
      = ''output_'' @ ''-0.5'' @ ''.dat''"
    by (simp add: filename_def unloaded_def path_name_def)
  have na: "NL \<notin> set ''0.0190''" and nb: "NL \<notin> set ''-0.5''" by simp_all
  have fa: "decimal_float ''0.0190'' = Inr 0.019"
    by (simp add: decimal_float_def is_digit_def nat_of_str_def)
  have fb: "decimal_float ''-0.5'' = Inr (- 0.5)"
    by (simp add: decimal_float_def is_digit_def nat_of_str_def)
  show ?thesis
    using metallicity_template[OF a na, of decimal_float]
      metallicity_template[OF b nb, of decimal_float] fa fb
    by simp
qed

text \<open>
  C1 as it is written fails: the dot of the pattern is no newline, so a value with a
  newline in it (Python's \<^verbatim>\<open>float\<close> reads \<^verbatim>\<open>"0.5\n"\<close> as 0.5) gives no match at all and
  the property raises IndexError before \<^verbatim>\<open>float\<close> is called.
\<close>

theorem metallicity_template_counterexample:
  "filename (unloaded () (''output_0.5'' @ [NL] @ ''.dat'') :: (unit, unit) isochrone_file)
     = ''output_'' @ (''0.5'' @ [NL]) @ ''.dat'' \<and>
   metallicity decimal_float
     (unloaded () (''output_0.5'' @ [NL] @ ''.dat'') :: (unit, unit) isochrone_file)
     = Inl IndexError"
  by (simp add: filename_def unloaded_def path_name_def metallicity_def
      lookbehind_def lookahead_def format_prefix_def format_suffix_def re_char_def)

subsection \<open>Filenames outside the template\<close>

text \<open>
  C4 (as amended). The pattern is searched anywhere in the filename. When the filename
  holds no \<^verbatim>\<open>output_\<close> that is followed, with no newline in between, by one more
  character and \<^verbatim>\<open>dat\<close> (as in \<^verbatim>\<open>table_0.5.dat\<close>), the metallicity property fails
  with IndexError, which is not of the ValueError class. When it holds one, the property
  is what \<^verbatim>\<open>float\<close> makes, its ValueError included, of the text \<open>v\<close> of one such
  occurrence \<^verbatim>\<open>output_\<close> \<open>v\<close> \<open>c\<close> \<^verbatim>\<open>dat\<close>: the one that starts first in the filename
  and, of those that start there, the one with the longest text.
\<close>

theorem metallicity_no_match:
  "(\<not> (\<exists>a v c b. filename self = a @ ''output_'' @ v @ c # ''dat'' @ b
          \<and> NL \<notin> set v \<and> c \<noteq> NL)
      \<longrightarrow> metallicity float self = Inl IndexError) \<and>
   ((\<exists>a v c b. filename self = a @ ''output_'' @ v @ c # ''dat'' @ b
          \<and> NL \<notin> set v \<and> c \<noteq> NL)
      \<longrightarrow> (\<exists>a v c b. filename self = a @ ''output_'' @ v @ c # ''dat'' @ b
             \<and> NL \<notin> set v \<and> c \<noteq> NL \<and>
             (\<forall>a' v' c' b'. filename self = a' @ ''output_'' @ v' @ c' # ''dat'' @ b'
                  \<and> NL \<notin> set v' \<and> c' \<noteq> NL
                \<longrightarrow> length a < length a' \<or> (a' = a \<and> length v' \<le> length v)) \<and>
             metallicity float self = float v))"
  (is "(\<not> ?P \<longrightarrow> ?A) \<and> (?P \<longrightarrow> ?B)")
proof -
  have iff: "first_match [] (filename self) = None \<longleftrightarrow> \<not> ?P"
    using first_match_None_template[of "filename self"] by (simp add: format_prefix_def)
  show ?thesis
  proof (intro conjI impI)
    assume "\<not> ?P"
    then have "first_match [] (filename self) = None" using iff by blast
    then show ?A by (simp add: metallicity_def)
  next
    assume ?P
    then have "first_match [] (filename self) \<noteq> None" using iff by blast
    then obtain found where f: "first_match [] (filename self) = Some found" by blast
    have m: "metallicity float self = float found" using f by (simp add: metallicity_def)
    from first_match_occurrence[OF f, unfolded format_prefix_def]
    obtain a c b where o: "filename self = a @ ''output_'' @ found @ c # ''dat'' @ b \<and>
        NL \<notin> set found \<and> c \<noteq> NL \<and>
        (\<forall>a' v' c' b'. filename self = a' @ ''output_'' @ v' @ c' # ''dat'' @ b'
             \<and> NL \<notin> set v' \<and> c' \<noteq> NL
           \<longrightarrow> length a < length a' \<or> (a' = a \<and> length v' \<le> length found))"
      by (elim exE)
    have "filename self = a @ ''output_'' @ found @ c # ''dat'' @ b \<and>
        NL \<notin> set found \<and> c \<noteq> NL \<and>
        (\<forall>a' v' c' b'. filename self = a' @ ''output_'' @ v' @ c' # ''dat'' @ b'
             \<and> NL \<notin> set v' \<and> c' \<noteq> NL
           \<longrightarrow> length a < length a' \<or> (a' = a \<and> length v' \<le> length found)) \<and>
        metallicity float self = float found"
      by (rule conjI[OF conjunct1[OF o] conjI[OF conjunct1[OF conjunct2[OF o]]
            conjI[OF conjunct1[OF conjunct2[OF conjunct2[OF o]]]
              conjI[OF conjunct2[OF conjunct2[OF conjunct2[OF o]]] m]]]])
    then show ?B by (intro exI)
  qed
qed

text \<open>\<^verbatim>\<open>table_0.5.dat\<close> holds no occurrence: IndexError. \<^verbatim>\<open>output_1.0.dat.dat\<close> holds
  two at the one \<^verbatim>\<open>output_\<close>; the longer text, \<^verbatim>\<open>1.0.dat\<close>, is the one that \<^verbatim>\<open>float\<close> is
  given, and it raises the ValueError.\<close>

theorem metallicity_no_match_witness:
  "metallicity decimal_float (unloaded () ''table_0.5.dat'' :: (unit, unit) isochrone_file)
     = Inl IndexError \<and>
   metallicity decimal_float (unloaded () ''output_1.0.dat.dat'' :: (unit, unit) isochrone_file)
     = Inl (ValueError ''could not convert string to float'')"
proof -
  let ?self = "unloaded () ''table_0.5.dat'' :: (unit, unit) isochrone_file"
  let ?other = "unloaded () ''output_1.0.dat.dat'' :: (unit, unit) isochrone_file"
  have f: "filename ?self = ''table_0.5.dat''"
    by (simp add: filename_def unloaded_def path_name_def)
  have "first_match [] ''table_0.5.dat'' = None"
    by (simp add: lookbehind_def lookahead_def format_prefix_def format_suffix_def re_char_def)
  then have "\<not> (\<exists>a v c b. filename ?self = a @ ''output_'' @ v @ c # ''dat'' @ b
          \<and> NL \<notin> set v \<and> c \<noteq> NL)"
    using first_match_None_template[of "''table_0.5.dat''"] f by (simp add: format_prefix_def)
  then have first: "metallicity decimal_float ?self = Inl IndexError"
    using conjunct1[OF metallicity_no_match[of ?self decimal_float]] by (rule mp[rotated])
  have g: "filename ?other = ''output_1.0.dat.dat''"
    by (simp add: filename_def unloaded_def path_name_def)
  have known: "filename ?other = [] @ ''output_'' @ ''1.0.dat'' @ CHR ''.'' # ''dat'' @ [] \<and>
      NL \<notin> set ''1.0.dat'' \<and> CHR ''.'' \<noteq> NL"
    using g by simp
  then have "\<exists>a v c b. filename ?other = a @ ''output_'' @ v @ c # ''dat'' @ b
      \<and> NL \<notin> set v \<and> c \<noteq> NL"
    by (intro exI)
  from mp[OF conjunct2[OF metallicity_no_match[of ?other decimal_float]] this]
  obtain a v c b where o: "filename ?other = a @ ''output_'' @ v @ c # ''dat'' @ b \<and>
      NL \<notin> set v \<and> c \<noteq> NL \<and>
      (\<forall>a' v' c' b'. filename ?other = a' @ ''output_'' @ v' @ c' # ''dat'' @ b'
           \<and> NL \<notin> set v' \<and> c' \<noteq> NL
         \<longrightarrow> length a < length a' \<or> (a' = a \<and> length v' \<le> length v)) \<and>
      metallicity decimal_float ?other = decimal_float v"
    by (elim exE)
  note best = conjunct1[OF conjunct2[OF conjunct2[OF conjunct2[OF o]]], rule_format, OF known]
  have a: "a = []" using best by simp
  have long: "7 \<le> length v" using best by simp
  have "''output_1.0.dat.dat'' = ''output_'' @ v @ c # ''dat'' @ b"
    using conjunct1[OF o] g a by simp
  then have e: "''1.0.dat.dat'' = v @ c # ''dat'' @ b" by simp
  have "length ''1.0.dat.dat'' = length (v @ c # ''dat'' @ b)" by (rule arg_cong[OF e])
  then have "length v + length b = 7" by simp
  then have seven: "length v = 7" using long by arith
  have "take 7 ''1.0.dat.dat'' = take 7 (v @ c # ''dat'' @ b)" by (rule arg_cong[OF e])
  then have "v = ''1.0.dat''" using seven by simp
  moreover have "decimal_float ''1.0.dat'' = Inl (ValueError ''could not convert string to float'')"
    by (simp add: decimal_float_def is_digit_def nat_of_str_def)
  ultimately have second: "metallicity decimal_float ?other
      = Inl (ValueError ''could not convert string to float'')"
    using conjunct2[OF conjunct2[OF conjunct2[OF conjunct2[OF o]]]] by simp
  show ?thesis using first second by (rule conjI)
qed

text \<open>
  C4 as it is written fails twice: for \<^verbatim>\<open>table_0.5.dat\<close> the error is an IndexError, not
  of the ValueError class; and \<^verbatim>\<open>my_output_0.5.dat.bak\<close>, which is not of the template,
  raises nothing: the text \<^verbatim>\<open>0.5\<close> is found inside it and \<^verbatim>\<open>float\<close> reads it.
\<close>

theorem metallicity_no_match_counterexample:
  "\<not> (case metallicity decimal_float
          (unloaded () ''table_0.5.dat'' :: (unit, unit) isochrone_file)
        of Inl e \<Rightarrow> is_ValueError e | Inr x \<Rightarrow> False) \<and>
   metallicity decimal_float
     (unloaded () ''my_output_0.5.dat.bak'' :: (unit, unit) isochrone_file)
     = Inr 0.5"
  by (simp add: filename_def unloaded_def path_name_def metallicity_def is_ValueError_def
      lookbehind_def lookahead_def format_prefix_def format_suffix_def re_char_def
      decimal_float_def is_digit_def nat_of_str_def)

section \<open>The header of an isochrone file\<close>

subsection \<open>Stripping\<close>

lemma strip_both:
  assumes "set pre \<subseteq> set cs" "set suf \<subseteq> set cs" "s \<noteq> []" "hd s \<notin> set cs" "last s \<notin> set cs"
  shows "strip cs (pre @ s @ suf) = s"
proof -
  let ?P = "\<lambda>c. c \<in> set cs"
  obtain a s' where s: "s = a # s'" using assms(3) by (cases s) auto
  have "dropWhile ?P (pre @ s @ suf) = dropWhile ?P (s @ suf)"
    using assms(1) by (intro dropWhile_append2) auto
  also have "\<dots> = s @ suf" using s assms(4) by simp
  finally have 1: "dropWhile ?P (pre @ s @ suf) = s @ suf" .
  obtain b r where r: "rev s = b # r" using assms(3) by (cases "rev s") auto
  then have b: "b = last s" using assms(3) by (metis last_rev list.sel(1) rev_rev_ident hd_rev)
  have "dropWhile ?P (rev (s @ suf)) = dropWhile ?P (rev suf @ rev s)" by simp
  also have "\<dots> = dropWhile ?P (rev s)"
    using assms(2) by (intro dropWhile_append2) auto
  also have "\<dots> = rev s"
  proof -
    have "\<not> ?P b" using b assms(5) by simp
    then have "dropWhile ?P (b # r) = b # r" by simp
    then show ?thesis by (simp only: r)
  qed
  finally have 2: "dropWhile ?P (rev (s @ suf)) = rev s" .
  show ?thesis unfolding strip_def 1 2 by simp
qed

lemma header_text_nonempty: "w \<noteq> [] \<Longrightarrow> header_text w rest \<noteq> []"
  by (cases rest) auto

lemma header_text_hd: "w \<noteq> [] \<Longrightarrow> hd (header_text w rest) = hd w"
  by (cases rest) auto

lemma header_text_last:
  "\<forall>n \<in> set (w # map snd rest). n \<noteq> [] \<and> c \<notin> set n \<Longrightarrow> last (header_text w rest) \<noteq> c"
proof (induction rest arbitrary: w)
  case Nil
  then show ?case by (metis header_text.simps(1) last_in_set list.set_intros(1))
next
  case (Cons a rest)
  obtain sep w' where a: "a = (sep, w')" by (cases a)
  have w': "w' \<noteq> []" using Cons.prems a by simp
  have "last (header_text w' rest) \<noteq> c" using Cons.prems a by (intro Cons.IH) simp
  then show ?case using a header_text_nonempty[OF w'] by simp
qed

subsection \<open>Tabs to spaces\<close>

lemma replace_char_name: "TAB \<notin> set n \<Longrightarrow> replace_char TAB SP n = n"
  by (induction n) (auto simp: replace_char_def)

lemma replace_char_sep: "set s \<subseteq> {SP, TAB} \<Longrightarrow> replace_char TAB SP s = replicate (length s) SP"
  by (induction s) (auto simp: replace_char_def)

lemma replace_char_append: "replace_char a b (xs @ ys) = replace_char a b xs @ replace_char a b ys"
  by (simp add: replace_char_def)

lemma replace_char_header_text:
  "\<forall>n \<in> set (w # map snd rest). TAB \<notin> set n \<Longrightarrow>
   \<forall>s \<in> set (map fst rest). set s \<subseteq> {SP, TAB} \<Longrightarrow>
   replace_char TAB SP (header_text w rest) =
     header_text w (map (\<lambda>(s, n). (replicate (length s) SP, n)) rest)"
proof (induction rest arbitrary: w)
  case Nil
  then show ?case by (simp add: replace_char_name)
next
  case (Cons a rest)
  obtain sep w' where a: "a = (sep, w')" by (cases a)
  have "replace_char TAB SP (header_text w' rest) =
     header_text w' (map (\<lambda>(s, n). (replicate (length s) SP, n)) rest)"
    using Cons.prems a by (intro Cons.IH) simp_all
  then show ?case
    using Cons.prems a by (simp add: replace_char_append replace_char_name replace_char_sep)
qed

subsection \<open>Splitting at spaces\<close>

lemma split_sp_nonempty: "split_sp s \<noteq> []"
  by (induction s) (auto split: list.splits)

lemma split_sp_Cons:
  "c \<noteq> SP \<Longrightarrow> split_sp (c # s) = (c # hd (split_sp s)) # tl (split_sp s)"
  using split_sp_nonempty[of s] by (cases "split_sp s") auto

lemma split_sp_name:
  "SP \<notin> set n \<Longrightarrow> split_sp (n @ s) = (n @ hd (split_sp s)) # tl (split_sp s)"
proof (induction n)
  case Nil
  then show ?case using split_sp_nonempty[of s] by simp
next
  case (Cons c n)
  have c: "c \<noteq> SP" using Cons.prems by auto
  have ih: "split_sp (n @ s) = (n @ hd (split_sp s)) # tl (split_sp s)"
    using Cons by simp
  have "split_sp ((c # n) @ s) = (c # hd (split_sp (n @ s))) # tl (split_sp (n @ s))"
    using split_sp_Cons[OF c, of "n @ s"] by simp
  then show ?case by (simp only: ih list.sel append_Cons)
qed

lemma wordsl_Cons: "wordsl (x # l) = (if x = [] then wordsl l else x # wordsl l)"
  by (simp add: wordsl_def)

lemma wordsl_spaces: "wordsl (split_sp (replicate m SP @ s)) = wordsl (split_sp s)"
  by (induction m) (auto simp: wordsl_def)

lemma wordsl_header_text:
  "\<forall>n \<in> set (w # map snd rest). n \<noteq> [] \<and> SP \<notin> set n \<Longrightarrow>
   \<forall>s \<in> set (map fst rest). \<exists>m. s = replicate (Suc m) SP \<Longrightarrow>
   wordsl (split_sp (header_text w rest)) = w # map snd rest"
proof (induction rest arbitrary: w)
  case Nil
  then show ?case using split_sp_name[of w "[]"] by (simp add: wordsl_def)
next
  case (Cons a rest)
  obtain sep w' where a: "a = (sep, w')" by (cases a)
  obtain m where m: "sep = replicate (Suc m) SP" using Cons.prems(2) a by auto
  have w: "w \<noteq> []" "SP \<notin> set w" using Cons.prems(1) by simp_all
  have ih: "wordsl (split_sp (header_text w' rest)) = w' # map snd rest"
    using Cons.prems a by (intro Cons.IH) simp_all
  have "header_text w (a # rest) = w @ SP # (replicate m SP @ header_text w' rest)"
    using a m by simp
  then have "split_sp (header_text w (a # rest)) = w # split_sp (replicate m SP @ header_text w' rest)"
    using split_sp_name[OF w(2), of "SP # (replicate m SP @ header_text w' rest)"] by simp
  then show ?case using w ih by (simp only: wordsl_Cons wordsl_spaces if_False list.map snd_conv a)
qed

subsection \<open>Collapsing runs of spaces\<close>

lemma split_sp_hd_tl: "split_sp s = hd (split_sp s) # tl (split_sp s)"
  using split_sp_nonempty[of s] by simp

lemma wordsl_split: 
  "wordsl (split_sp s) = wordsl [hd (split_sp s)] @ wordsl (tl (split_sp s))"
  using split_sp_hd_tl[of s] by (metis append_Cons append_Nil filter.simps(2) wordsl_def filter_append)

lemma replace_dbl_split:
  "hd (split_sp (replace_dbl s)) = hd (split_sp s) \<and>
   wordsl (tl (split_sp (replace_dbl s))) = wordsl (tl (split_sp s))"
proof (induction s rule: replace_dbl.induct)
  case (1 a b cs)
  show ?case
  proof (cases "a = SP \<and> b = SP")
    case True
    then have ih: "hd (split_sp (replace_dbl cs)) = hd (split_sp cs)"
      "wordsl (tl (split_sp (replace_dbl cs))) = wordsl (tl (split_sp cs))"
      using 1 by simp_all
    have "wordsl (split_sp (replace_dbl cs)) = wordsl (split_sp cs)"
      using wordsl_split[of "replace_dbl cs"] wordsl_split[of cs] ih by simp
    then show ?thesis using True by (simp add: wordsl_Cons)
  next
    case False
    then have ih: "hd (split_sp (replace_dbl (b # cs))) = hd (split_sp (b # cs))"
      "wordsl (tl (split_sp (replace_dbl (b # cs)))) = wordsl (tl (split_sp (b # cs)))"
      using 1 by simp_all
    have r: "replace_dbl (a # b # cs) = a # replace_dbl (b # cs)" using False by auto
    show ?thesis
    proof (cases "a = SP")
      case True
      have "wordsl (split_sp (replace_dbl (b # cs))) = wordsl (split_sp (b # cs))"
        using wordsl_split[of "replace_dbl (b # cs)"] wordsl_split[of "b # cs"] ih by simp
      then show ?thesis unfolding r using True by simp
    next
      case na: False
      show ?thesis unfolding r split_sp_Cons[OF na] using ih by simp
    qed
  qed
qed simp_all

lemma replace_dbl_words: "wordsl (split_sp (replace_dbl s)) = wordsl (split_sp s)"
  using wordsl_split[of "replace_dbl s"] wordsl_split[of s] replace_dbl_split[of s] by simp

lemma collapse_step: "count_dbl header \<noteq> 0 \<Longrightarrow> collapse header = collapse (replace_dbl header)"
  by (subst collapse.simps) simp

lemma collapse_stop: "count_dbl header = 0 \<Longrightarrow> collapse header = header"
  by (subst collapse.simps) simp

lemma collapse_words: "wordsl (split_sp (collapse s)) = wordsl (split_sp s)"
proof (induction s rule: collapse.induct)
  case (1 header)
  show ?case
  proof (cases "count_dbl header \<noteq> 0")
    case True
    then have "collapse header = collapse (replace_dbl header)" by (rule collapse_step)
    then show ?thesis using 1[OF True] replace_dbl_words by simp
  next
    case False
    then show ?thesis by (simp add: collapse_stop)
  qed
qed

lemma collapse_count: "count_dbl (collapse s) = 0"
proof (induction s rule: collapse.induct)
  case (1 header)
  show ?case
  proof (cases "count_dbl header \<noteq> 0")
    case True
    then have "collapse header = collapse (replace_dbl header)" by (rule collapse_step)
    then show ?thesis using 1[OF True] by simp
  next
    case False
    then show ?thesis by (simp add: collapse_stop)
  qed
qed

lemma replace_dbl_Nil: "replace_dbl s = [] \<longleftrightarrow> s = []"
  by (induction s rule: replace_dbl.induct) auto

lemma replace_dbl_hd: "hd (replace_dbl s) = hd s"
  by (induction s rule: replace_dbl.induct) auto

lemma replace_dbl_last: "last (replace_dbl s) = last s"
  by (induction s rule: replace_dbl.induct) (auto simp: replace_dbl_Nil)

lemma replace_dbl_edges: "edges_ok s \<Longrightarrow> edges_ok (replace_dbl s)"
  by (simp add: edges_ok_def replace_dbl_Nil replace_dbl_hd replace_dbl_last)

lemma collapse_edges: "edges_ok s \<Longrightarrow> edges_ok (collapse s)"
proof (induction s rule: collapse.induct)
  case (1 header)
  show ?case
  proof (cases "count_dbl header \<noteq> 0")
    case True
    then have "collapse header = collapse (replace_dbl header)" by (rule collapse_step)
    then show ?thesis using 1(1)[OF True] 1(2) replace_dbl_edges by simp
  next
    case False
    then show ?thesis using 1(2) by (simp add: collapse_stop)
  qed
qed

lemma single_spaces_split:
  "count_dbl s = 0 \<Longrightarrow> s \<noteq> [] \<Longrightarrow> last s \<noteq> SP \<Longrightarrow>
   [] \<notin> set (tl (split_sp s)) \<and> (hd (split_sp s) = [] \<longleftrightarrow> hd s = SP)"
proof (induction s rule: count_dbl.induct)
  case (1 a b cs)
  have nb: "\<not> (a = SP \<and> b = SP)" using 1(3) by (auto split: if_splits)
  then have c: "count_dbl (b # cs) = 0" using 1(3) by auto
  have ih: "[] \<notin> set (tl (split_sp (b # cs)))" "hd (split_sp (b # cs)) = [] \<longleftrightarrow> b = SP"
    using 1(2)[OF nb c] 1(5) by simp_all
  show ?case
  proof (cases "a = SP")
    case True
    then have "b \<noteq> SP" using nb by simp
    then have "[] \<notin> set (split_sp (b # cs))"
      using ih split_sp_hd_tl[of "b # cs"] by (metis set_ConsD)
    then show ?thesis using True by simp
  next
    case False
    show ?thesis unfolding split_sp_Cons[OF False] using ih(1) False by simp
  qed
qed simp_all

lemma single_spaces_words:
  assumes "count_dbl s = 0" "edges_ok s"
  shows "split_sp s = wordsl (split_sp s)"
proof -
  have "[] \<notin> set (tl (split_sp s))" "hd (split_sp s) \<noteq> []"
    using single_spaces_split[of s] assms by (simp_all add: edges_ok_def)
  then have "[] \<notin> set (split_sp s)" using split_sp_hd_tl[of s] by (metis set_ConsD)
  then have "\<forall>w \<in> set (split_sp s). w \<noteq> []" by metis
  then have "filter (\<lambda>w. w \<noteq> []) (split_sp s) = split_sp s" by (rule filter_True)
  then show ?thesis by (simp add: wordsl_def)
qed

subsection \<open>The whole header line\<close>

lemma parse_header_form:
  assumes names: "\<forall>n \<in> set (w # map snd rest). proper_name n"
    and seps: "\<forall>s \<in> set (map fst rest). proper_sep s"
    and first: "hd w \<noteq> HASH"
  shows "parse_header (replicate (Suc j) HASH @ replicate k SP @ header_text w rest @ [NL])
     = w # map snd rest"
proof -
  let ?T = "header_text w rest"
  let ?rest' = "map (\<lambda>(s, n). (replicate (length s) SP, n)) rest"
  let ?T' = "header_text w ?rest'"
  have w: "w \<noteq> []" "SP \<notin> set w" "NL \<notin> set w"
    using names by (simp_all add: proper_name_def)
  have "hd w \<in> set w" using w(1) by (rule hd_in_set)
  then have w2: "hd w \<noteq> SP" "hd w \<noteq> NL" using w(2,3) by metis+
  have T: "?T \<noteq> []" "hd ?T = hd w"
    using w(1) by (simp_all add: header_text_nonempty header_text_hd)
  have lastNL: "last ?T \<noteq> NL"
    using names by (intro header_text_last) (auto simp: proper_name_def)
  have a: "strip [HASH] (replicate (Suc j) HASH @ replicate k SP @ ?T @ [NL])
      = replicate k SP @ ?T @ [NL]"
  proof -
    have "hd (replicate k SP @ ?T @ [NL]) \<noteq> HASH"
      using T first by (cases k) (simp_all add: hd_append)
    then have "strip [HASH] (replicate (Suc j) HASH @ (replicate k SP @ ?T @ [NL]) @ [])
        = replicate k SP @ ?T @ [NL]"
      by (intro strip_both) auto
    then show ?thesis by simp
  qed
  have b: "strip [SP] (replicate k SP @ ?T @ [NL]) = ?T @ [NL]"
  proof -
    have "hd (?T @ [NL]) \<noteq> SP" using T w2 by (simp add: hd_append)
    then have "strip [SP] (replicate k SP @ (?T @ [NL]) @ []) = ?T @ [NL]"
      by (intro strip_both) auto
    then show ?thesis by simp
  qed
  have c: "strip [NL] (?T @ [NL]) = ?T"
  proof -
    have "strip [NL] ([] @ ?T @ [NL]) = ?T"
      using T w2 lastNL by (intro strip_both) auto
    then show ?thesis by simp
  qed
  have d: "replace_char TAB SP ?T = ?T'"
    using names seps by (intro replace_char_header_text) (auto simp: proper_name_def proper_sep_def)
  have snd': "map snd ?rest' = map snd rest" by (induction rest) auto
  have e: "edges_ok ?T'"
  proof -
    have "last ?T' \<noteq> SP"
      using names snd' by (intro header_text_last) (auto simp: proper_name_def)
    then show ?thesis
      using w(1) w2 by (simp add: edges_ok_def header_text_nonempty header_text_hd)
  qed
  have f: "wordsl (split_sp ?T') = w # map snd ?rest'"
  proof (rule wordsl_header_text)
    show "\<forall>n\<in>set (w # map snd ?rest'). n \<noteq> [] \<and> SP \<notin> set n"
      using names snd' by (auto simp: proper_name_def)
    show "\<forall>s\<in>set (map fst ?rest'). \<exists>m. s = replicate (Suc m) SP"
    proof
      fix s assume "s \<in> set (map fst ?rest')"
      then obtain s0 where s0: "s0 \<in> set (map fst rest)" "s = replicate (length s0) SP"
        by force
      then have "s0 \<noteq> []" using seps by (auto simp: proper_sep_def)
      then obtain m where "length s0 = Suc m" by (cases s0) auto
      then show "\<exists>m. s = replicate (Suc m) SP" using s0 by auto
    qed
  qed
  have "split_sp (collapse ?T') = wordsl (split_sp (collapse ?T'))"
    using collapse_count collapse_edges[OF e] by (rule single_spaces_words)
  also have "\<dots> = w # map snd rest" using collapse_words f snd' by simp
  finally show ?thesis by (simp only: parse_header_def a b c d)
qed

subsection \<open>Finding the header line\<close>

lemma readline_line: "NL \<notin> set l \<Longrightarrow> readline (l @ NL # r) = (l @ [NL], r)"
  by (induction l) auto

lemma is_comment_readline: "is_comment (fst (readline f)) = is_comment f"
  by (cases f) (auto simp: is_comment_def split: prod.splits)

lemma header_loop_stop: "\<not> is_comment temp \<Longrightarrow> header_loop temp f h = h"
  by (subst header_loop.simps) simp

lemma header_loop_step:
  "is_comment temp \<Longrightarrow> readline f = (t', f') \<Longrightarrow>
   header_loop temp f h = header_loop t' f' (if is_comment t' then Some t' else h)"
  by (subst header_loop.simps) simp

lemma header_loop_unbound:
  assumes "\<not> is_comment content"
  shows "header_loop ''#'' content None = None"
proof -
  obtain l r where lr: "readline content = (l, r)" by (cases "readline content")
  then have nl: "\<not> is_comment l" using is_comment_readline[of content] assms by simp
  have c: "is_comment ''#''" by (simp add: is_comment_def)
  have "header_loop ''#'' content None = header_loop l r None"
    using header_loop_step[OF c lr, of None] nl by simp
  also have "\<dots> = None" using nl by (rule header_loop_stop)
  finally show ?thesis .
qed

lemma header_loop_finds:
  assumes "is_comment temp" "\<forall>l \<in> set ls. NL \<notin> set l" "NL \<notin> set l" "\<not> is_comment body"
  shows "header_loop temp (comment_block ls @ (HASH # l @ [NL]) @ body) h = Some (HASH # l @ [NL])"
  using assms
proof (induction ls arbitrary: temp h)
  case Nil
  let ?line = "HASH # l @ [NL]"
  have "readline ((HASH # l) @ NL # body) = ((HASH # l) @ [NL], body)"
    using Nil(3) by (intro readline_line) simp
  then have r: "readline (?line @ body) = (?line, body)" by simp
  have c: "is_comment ?line" by (simp add: is_comment_def)
  obtain t' f' where tf: "readline body = (t', f')" by (cases "readline body")
  have nt: "\<not> is_comment t'" using is_comment_readline[of body] tf Nil(4) by simp
  have "header_loop temp (?line @ body) h = header_loop ?line body (Some ?line)"
    using header_loop_step[OF Nil(1) r, of h] c by simp
  also have "\<dots> = header_loop t' f' (Some ?line)"
    using header_loop_step[OF c tf, of "Some ?line"] nt by simp
  also have "\<dots> = Some ?line" using nt by (rule header_loop_stop)
  finally show ?case by (simp add: comment_block_def)
next
  case (Cons x ls)
  let ?line = "HASH # x @ [NL]"
  let ?rest = "comment_block ls @ (HASH # l @ [NL]) @ body"
  have x: "NL \<notin> set x" using Cons.prems(2) by simp
  have "readline ((HASH # x) @ NL # ?rest) = ((HASH # x) @ [NL], ?rest)"
    using x by (intro readline_line) simp
  then have r: "readline (?line @ ?rest) = (?line, ?rest)" by simp
  have c: "is_comment ?line" by (simp add: is_comment_def)
  have e: "comment_block (x # ls) @ (HASH # l @ [NL]) @ body = ?line @ ?rest"
    by (simp add: comment_block_def)
  have "header_loop temp (?line @ ?rest) h = header_loop ?line ?rest (Some ?line)"
    using header_loop_step[OF Cons.prems(1) r, of h] c by simp
  also have "\<dots> = Some (HASH # l @ [NL])"
    using Cons.prems by (intro Cons.IH[OF c]) simp_all
  finally show ?case unfolding e .
qed

lemma join_sp_header_text: "join_sp (n # ns) = header_text n (map (\<lambda>x. ([SP], x)) ns)"
  by (induction ns arbitrary: n) auto

subsection \<open>Column names\<close>

text \<open>
  C2 (as amended). The file starts with a block of comment lines; the last of them is
  the marker (once or more), spaces (none or more), then names separated by runs of
  spaces and tabs, the first name not beginning with the marker, then directly the
  newline, as in \<^verbatim>\<open># Age M_ini logL logT\<close>; what follows is no comment line (the first
  data line, or the end of the file). Then the first access of \<^verbatim>\<open>column_names\<close>
  returns exactly the names, in order, and caches them.
\<close>

theorem column_names_header:
  assumes on_disk: "fs (priv_path self) =
      Some (comment_block ls @ (replicate (Suc j) HASH @ replicate k SP @
              header_text w rest @ [NL]) @ body)"
    and first_access: "priv_column_names self = None"
    and block: "\<forall>l \<in> set ls. NL \<notin> set l"
    and names: "\<forall>n \<in> set (w # map snd rest). proper_name n" "hd w \<noteq> HASH"
    and seps: "\<forall>s \<in> set (map fst rest). proper_sep s"
    and body: "\<not> is_comment body"
  shows "column_names fs self =
      (Inr (Some (w # map snd rest)), self\<lparr>priv_column_names := Some (w # map snd rest)\<rparr>)"
proof -
  let ?l = "replicate j HASH @ replicate k SP @ header_text w rest"
  let ?line = "HASH # ?l @ [NL]"
  have line: "replicate (Suc j) HASH @ replicate k SP @ header_text w rest @ [NL] = ?line"
    by simp
  have nl_names: "\<forall>n \<in> set (w # map snd rest). NL \<notin> set n"
    using names(1) by (simp add: proper_name_def)
  have nl_seps: "\<forall>s \<in> set (map fst rest). NL \<notin> set s"
    using seps by (auto simp: proper_sep_def)
  have "NL \<notin> set (header_text w rest)"
    using nl_names nl_seps
  proof (induction rest arbitrary: w)
    case Nil
    then show ?case by simp
  next
    case (Cons a rest)
    obtain sep w' where a: "a = (sep, w')" by (cases a)
    have "NL \<notin> set (header_text w' rest)" using Cons.prems a by (intro Cons.IH) simp_all
    then show ?case using Cons.prems a by simp
  qed
  then have nl: "NL \<notin> set ?l" by simp
  have c: "is_comment ''#''" by (simp add: is_comment_def)
  have "header_loop ''#'' (comment_block ls @ ?line @ body) None = Some ?line"
    using c block nl body by (rule header_loop_finds)
  moreover have "parse_header ?line = w # map snd rest"
    using parse_header_form[OF names(1) seps names(2), of j k] by (simp only: line)
  ultimately have "load_column_names fs self =
      Inr (self\<lparr>priv_column_names := Some (w # map snd rest)\<rparr>)"
    using on_disk[unfolded line] by (simp only: load_column_names_def option.case)
  then show ?thesis
    using first_access by (simp add: column_names_def)
qed

text \<open>Two headers: one after another comment line and with runs of spaces and tabs
  between the names, and the plain one.\<close>

theorem column_names_header_witness:
  "column_names
     [''output_0.0190.dat'' \<mapsto>
        ''# isochrone table'' @ [NL] @ ''#  Age   M_ini'' @ [TAB] @ ''logL '' @ [TAB] @ ''logT''
          @ [NL] @ ''6.0 0.1 -1.5 3.6'' @ [NL]]
     (unloaded () ''output_0.0190.dat'' :: (unit, unit) isochrone_file)
   = (Inr (Some [''Age'', ''M_ini'', ''logL'', ''logT'']),
      (unloaded () ''output_0.0190.dat'')
        \<lparr>priv_column_names := Some [''Age'', ''M_ini'', ''logL'', ''logT'']\<rparr>) \<and>
   column_names
     [''output_0.0190.dat'' \<mapsto> ''# Age M_ini logL logT'' @ [NL] @ ''6.0 0.1 -1.5 3.6'' @ [NL]]
     (unloaded () ''output_0.0190.dat'' :: (unit, unit) isochrone_file)
   = (Inr (Some [''Age'', ''M_ini'', ''logL'', ''logT'']),
      (unloaded () ''output_0.0190.dat'')
        \<lparr>priv_column_names := Some [''Age'', ''M_ini'', ''logL'', ''logT'']\<rparr>)"
proof -
  let ?self = "unloaded () ''output_0.0190.dat'' :: (unit, unit) isochrone_file"
  let ?body = "''6.0 0.1 -1.5 3.6'' @ [NL]"
  let ?fs1 = "[''output_0.0190.dat'' \<mapsto>
        ''# isochrone table'' @ [NL] @ ''#  Age   M_ini'' @ [TAB] @ ''logL '' @ [TAB] @ ''logT''
          @ [NL] @ ?body]"
  let ?fs2 = "[''output_0.0190.dat'' \<mapsto> ''# Age M_ini logL logT'' @ [NL] @ ?body]"
  let ?rest1 = "[(''   '', ''M_ini''), ([TAB], ''logL''), (SP # [TAB], ''logT'')]"
  let ?rest2 = "[('' '', ''M_ini''), ('' '', ''logL''), ('' '', ''logT'')]"
  have fresh: "priv_column_names ?self = None" by (simp add: unloaded_def)
  have body: "\<not> is_comment ?body" by (simp add: is_comment_def)
  have f1: "?fs1 (priv_path ?self) =
      Some (comment_block ['' isochrone table''] @ (replicate (Suc 0) HASH @ replicate 2 SP @
              header_text ''Age'' ?rest1 @ [NL]) @ ?body)"
    by (simp add: unloaded_def comment_block_def numeral_2_eq_2)
  have f2: "?fs2 (priv_path ?self) =
      Some (comment_block [] @ (replicate (Suc 0) HASH @ replicate 1 SP @
              header_text ''Age'' ?rest2 @ [NL]) @ ?body)"
    by (simp add: unloaded_def comment_block_def)
  have b1: "\<forall>l \<in> set ['' isochrone table'']. NL \<notin> set l" by simp
  have b2: "\<forall>l \<in> set ([] :: string list). NL \<notin> set l" by simp
  have n1: "\<forall>n \<in> set (''Age'' # map snd ?rest1). proper_name n" by (simp add: proper_name_def)
  have n2: "\<forall>n \<in> set (''Age'' # map snd ?rest2). proper_name n" by (simp add: proper_name_def)
  have h: "hd ''Age'' \<noteq> HASH" by simp
  have s1: "\<forall>s \<in> set (map fst ?rest1). proper_sep s" by (simp add: proper_sep_def)
  have s2: "\<forall>s \<in> set (map fst ?rest2). proper_sep s" by (simp add: proper_sep_def)
  show ?thesis
    using column_names_header[where fs = ?fs1 and self = ?self and ls = "['' isochrone table'']"
          and j = 0 and k = 2 and w = "''Age''" and rest = ?rest1 and body = ?body,
          OF f1 fresh b1 n1 h s1 body]
      column_names_header[where fs = ?fs2 and self = ?self and ls = "[]"
          and j = 0 and k = 1 and w = "''Age''" and rest = ?rest2 and body = ?body,
          OF f2 fresh b2 n2 h s2 body]
    by simp
qed

text \<open>
  C2 as it is written fails: the whitespace around the names is not all stripped. The
  spaces are stripped while the newline is still the last character, so a blank between
  the last name and the newline stays and gives an empty name at the end; and a tab is
  never stripped, only turned into a space, so a tab between the marker and the first
  name gives an empty name at the front.
\<close>

theorem column_names_header_counterexample:
  "fst (column_names
     [''output_0.0190.dat'' \<mapsto> ''# Age M_ini logL logT '' @ [NL] @ ''6.0 0.1 -1.5 3.6'' @ [NL]]
     (unloaded () ''output_0.0190.dat'' :: (unit, unit) isochrone_file))
   = Inr (Some [''Age'', ''M_ini'', ''logL'', ''logT'', []]) \<and>
   fst (column_names
     [''output_0.0190.dat'' \<mapsto>
        ''#'' @ [TAB] @ ''Age M_ini logL logT'' @ [NL] @ ''6.0 0.1 -1.5 3.6'' @ [NL]]
     (unloaded () ''output_0.0190.dat'' :: (unit, unit) isochrone_file))
   = Inr (Some [[], ''Age'', ''M_ini'', ''logL'', ''logT''])"
proof -
  have h1: "header_loop ''#'' (''# Age M_ini logL logT '' @ [NL] @ ''6.0 0.1 -1.5 3.6'' @ [NL]) None
      = Some (''# Age M_ini logL logT '' @ [NL])"
    by (simp add: header_loop.simps is_comment_def)
  have p1: "parse_header (''# Age M_ini logL logT '' @ [NL])
      = [''Age'', ''M_ini'', ''logL'', ''logT'', []]"
    by code_simp
  have h2: "header_loop ''#''
        (''#'' @ [TAB] @ ''Age M_ini logL logT'' @ [NL] @ ''6.0 0.1 -1.5 3.6'' @ [NL]) None
      = Some (''#'' @ [TAB] @ ''Age M_ini logL logT'' @ [NL])"
    by (simp add: header_loop.simps is_comment_def)
  have p2: "parse_header (''#'' @ [TAB] @ ''Age M_ini logL logT'' @ [NL])
      = [[], ''Age'', ''M_ini'', ''logL'', ''logT'']"
    by code_simp
  show ?thesis
    using h1 p1 h2 p2 by (simp add: column_names_def load_column_names_def unloaded_def)
qed

subsection \<open>No header\<close>

text \<open>
  C3 (as amended). When the file exists and what it starts with is no comment line
  (a data line, or nothing at all), the first access of \<^verbatim>\<open>column_names\<close> fails, with
  the UnboundLocalError of reading the variable \<^verbatim>\<open>header\<close> that no line has bound,
  and the object is left as it was.
\<close>

theorem column_names_no_header:
  assumes "fs (priv_path self) = Some content"
    and "\<not> is_comment content"
    and "priv_column_names self = None"
  shows "column_names fs self = (Inl (UnboundLocalError ''header''), self)"
  using assms header_loop_unbound[of content]
  by (simp add: column_names_def load_column_names_def)

theorem column_names_no_header_witness:
  "column_names [''output_0.5.dat'' \<mapsto> ''0.1 1.0'' @ [NL]]
     (unloaded () ''output_0.5.dat'' :: (unit, unit) isochrone_file)
   = (Inl (UnboundLocalError ''header''), unloaded () ''output_0.5.dat'')"
proof -
  let ?fs = "[''output_0.5.dat'' \<mapsto> ''0.1 1.0'' @ [NL]]"
  let ?self = "unloaded () ''output_0.5.dat'' :: (unit, unit) isochrone_file"
  have a: "?fs (priv_path ?self) = Some (''0.1 1.0'' @ [NL])" by (simp add: unloaded_def)
  have b: "\<not> is_comment (''0.1 1.0'' @ [NL])" by (simp add: is_comment_def)
  have c: "priv_column_names ?self = None" by (simp add: unloaded_def)
  show ?thesis
    using column_names_no_header[of ?fs ?self "''0.1 1.0'' @ [NL]"] a b c by blast
qed

text \<open>
  C3 as it is written fails: the package defines no HeaderFormatError and raises none.
  A file of two data lines and an empty file both end in the UnboundLocalError.
\<close>

theorem column_names_no_header_counterexample:
  "fst (column_names [''output_0.5.dat'' \<mapsto> ''0.1 1.0'' @ [NL] @ ''0.1 1.1'' @ [NL]]
     (unloaded () ''output_0.5.dat'' :: (unit, unit) isochrone_file))
   = Inl (UnboundLocalError ''header'') \<and>
   fst (column_names [''output_0.5.dat'' \<mapsto> []]
     (unloaded () ''output_0.5.dat'' :: (unit, unit) isochrone_file))
   = Inl (UnboundLocalError ''header'')"
  by (simp add: column_names_def load_column_names_def unloaded_def is_comment_def
      header_loop.simps)

section \<open>Lazy loading\<close>

lemma column_names_cached:
  "priv_column_names self = Some ns \<Longrightarrow> column_names fs self = (Inr (Some ns), self)"
  by (simp add: column_names_def)

lemma load_column_names_sets:
  "load_column_names fs self = Inr self' \<Longrightarrow>
   (\<exists>ns. self' = self\<lparr>priv_column_names := Some ns\<rparr>)"
  by (auto simp: load_column_names_def split: option.splits)

lemma column_names_result:
  "column_names fs self = (Inr v, self') \<Longrightarrow>
   (\<exists>ns. v = Some ns \<and> priv_column_names self' = Some ns)"
proof (cases "priv_column_names self")
  case None
  assume "column_names fs self = (Inr v, self')"
  then show ?thesis using None
    by (auto simp: column_names_def split: sum.splits dest!: load_column_names_sets)
next
  case (Some ns)
  assume a: "column_names fs self = (Inr v, self')"
  have "column_names fs self = (Inr (Some ns), self)" using Some by (rule column_names_cached)
  with a have "v = Some ns" "self' = self" by simp_all
  then show ?thesis using Some by simp
qed

lemma column_names_frame:
  "priv_data (snd (column_names fs self)) = priv_data self \<and>
   priv_path (snd (column_names fs self)) = priv_path self \<and>
   priv_isochrone (snd (column_names fs self)) = priv_isochrone self"
  by (auto simp: column_names_def split: option.splits sum.splits
      dest!: load_column_names_sets)

lemma data_cached:
  "priv_data self = Some t \<Longrightarrow> data lib fs self = (Inr (Some t), self)"
  by (simp add: data_def)

lemma load_data_result:
  "load_data lib fs self = (Inr u, self') \<Longrightarrow> (\<exists>t. priv_data self' = Some t)"
  by (auto simp: load_data_def split: prod.splits sum.splits)

lemma data_result:
  "data lib fs self = (Inr v, self') \<Longrightarrow> (\<exists>t. v = Some t \<and> priv_data self' = Some t)"
proof (cases "priv_data self")
  case None
  assume "data lib fs self = (Inr v, self')"
  then show ?thesis using None
    by (auto simp: data_def split: prod.splits sum.splits dest!: load_data_result)
next
  case (Some t)
  assume a: "data lib fs self = (Inr v, self')"
  have "data lib fs self = (Inr (Some t), self)" using Some by (rule data_cached)
  with a have "v = Some t" "self' = self" by simp_all
  then show ?thesis using Some by simp
qed

lemma load_data_keeps_names:
  "priv_column_names self = Some ns \<Longrightarrow>
   priv_column_names (snd (load_data lib fs self)) = Some ns"
  by (simp add: load_data_def column_names_cached split: sum.splits)

lemma data_keeps_names:
  "priv_column_names self = Some ns \<Longrightarrow> priv_column_names (snd (data lib fs self)) = Some ns"
  using load_data_keeps_names[of self ns lib fs]
  by (auto simp: data_def split: option.splits prod.splits sum.splits)

lemma access_keeps_names:
  "priv_column_names self = Some ns \<Longrightarrow> priv_column_names (access lib fs which self) = Some ns"
  by (cases which) (simp_all add: access_def column_names_cached data_keeps_names)

lemma access_keeps_data:
  "priv_data self = Some t \<Longrightarrow> priv_data (access lib fs which self) = Some t"
  using column_names_frame[of fs self]
  by (cases which) (simp_all add: access_def data_cached)

lemma lifetime_keeps_names:
  "priv_column_names self = Some ns \<Longrightarrow> priv_column_names (lifetime lib accesses self) = Some ns"
  by (induction accesses arbitrary: self) (auto simp: access_keeps_names)

lemma lifetime_keeps_data:
  "priv_data self = Some t \<Longrightarrow> priv_data (lifetime lib accesses self) = Some t"
  by (induction accesses arbitrary: self) (auto simp: access_keeps_data)

lemma column_names_first:
  assumes "priv_column_names self = None"
    and "fs (priv_path self) = Some content"
    and "header_loop ''#'' content None = Some h"
  shows "column_names fs self
    = (Inr (Some (parse_header h)), self\<lparr>priv_column_names := Some (parse_header h)\<rparr>)"
  using assms by (simp add: column_names_def load_column_names_def)

lemma data_first:
  assumes "priv_data self = None"
    and "column_names fs self = (Inr names, mid)"
    and "ascii_read lib fs (priv_path mid) names = Inr t"
  shows "data lib fs self = (Inr (Some t), mid\<lparr>priv_data := Some t\<rparr>)"
  using assms by (simp add: data_def load_data_def)

text \<open>
  C5. A new object has nothing computed. The first access of \<^verbatim>\<open>column_names\<close>, on an
  object that has none, reads the file, returns the names of its header and stores them
  in the object; the first access of \<^verbatim>\<open>data\<close>, on an object that has none, takes the
  column names (loading them when they are missing), reads the table with them, returns
  it and stores it. Once \<^verbatim>\<open>column_names\<close> (or \<^verbatim>\<open>data\<close>) has returned a value, the value
  stays in the object through any later reads of any properties, whatever becomes of the
  files, and the next access returns the same value and leaves the object as it is: it
  depends neither on the files nor on the library, so nothing is read or computed again.
\<close>

theorem caches_loaded_once:
  "priv_column_names (unloaded ic p) = None \<and> priv_data (unloaded ic p) = None \<and>
   (priv_column_names fresh = None \<and> fs_first (priv_path fresh) = Some content \<and>
    header_loop ''#'' content None = Some h \<longrightarrow>
      column_names fs_first fresh
        = (Inr (Some (parse_header h)), fresh\<lparr>priv_column_names := Some (parse_header h)\<rparr>)) \<and>
   (priv_data fresh = None \<and> column_names fs_first fresh = (Inr names, mid) \<and>
    ascii_read lib fs_first (priv_path mid) names = Inr t \<longrightarrow>
      data lib fs_first fresh = (Inr (Some t), mid\<lparr>priv_data := Some t\<rparr>)) \<and>
   (column_names fs self = (Inr v, self') \<longrightarrow>
      (\<exists>ns. v = Some ns \<and> priv_column_names (lifetime lib accesses self') = Some ns) \<and>
      column_names fs_later (lifetime lib accesses self') = (Inr v, lifetime lib accesses self')) \<and>
   (data lib fs self = (Inr d, self') \<longrightarrow>
      (\<exists>t. d = Some t \<and> priv_data (lifetime lib accesses self') = Some t) \<and>
      data lib_later fs_later (lifetime lib accesses self') = (Inr d, lifetime lib accesses self'))"
proof (intro conjI impI)
  show "priv_column_names (unloaded ic p) = None" "priv_data (unloaded ic p) = None"
    by (simp_all add: unloaded_def)
next
  assume "priv_column_names fresh = None \<and> fs_first (priv_path fresh) = Some content \<and>
    header_loop ''#'' content None = Some h"
  then show "column_names fs_first fresh
      = (Inr (Some (parse_header h)), fresh\<lparr>priv_column_names := Some (parse_header h)\<rparr>)"
    by (simp add: column_names_first)
next
  assume "priv_data fresh = None \<and> column_names fs_first fresh = (Inr names, mid) \<and>
    ascii_read lib fs_first (priv_path mid) names = Inr t"
  then show "data lib fs_first fresh = (Inr (Some t), mid\<lparr>priv_data := Some t\<rparr>)"
    by (simp add: data_first)
next
  assume "column_names fs self = (Inr v, self')"
  then obtain ns where v: "v = Some ns" and c: "priv_column_names self' = Some ns"
    using column_names_result by blast
  have l: "priv_column_names (lifetime lib accesses self') = Some ns"
    using c by (rule lifetime_keeps_names)
  show "\<exists>ns. v = Some ns \<and> priv_column_names (lifetime lib accesses self') = Some ns"
    using v l by blast
  show "column_names fs_later (lifetime lib accesses self') = (Inr v, lifetime lib accesses self')"
    using l v by (simp add: column_names_cached)
next
  assume "data lib fs self = (Inr d, self')"
  then obtain t where d: "d = Some t" and c: "priv_data self' = Some t"
    using data_result by blast
  have l: "priv_data (lifetime lib accesses self') = Some t"
    using c by (rule lifetime_keeps_data)
  show "\<exists>t. d = Some t \<and> priv_data (lifetime lib accesses self') = Some t"
    using d l by blast
  show "data lib_later fs_later (lifetime lib accesses self') = (Inr d, lifetime lib accesses self')"
    using l d by (simp add: data_cached)
qed

section \<open>Construction\<close>

lemma args_cases:
  obtains "args = []" | x where "args = [x]" | x d where "args = [x, d]"
  | x d y ys where "args = x # d # y # ys"
proof (cases args)
  case Nil then show ?thesis using that by blast
next
  case (Cons x xs)
  show ?thesis
  proof (cases xs)
    case Nil then show ?thesis using Cons that by blast
  next
    case c2: (Cons d ds)
    show ?thesis
    proof (cases ds)
      case Nil then show ?thesis using Cons c2 that by blast
    next
      case c3: (Cons y ys) then show ?thesis using Cons c2 that by blast
    qed
  qed
qed

lemma init_None: "init lib args None fs = Inl (TypeError ''Keyword argument 'isochrone' missing'')"
  by (simp add: init_def)

lemma init_nil: "init lib [] (Some ic) fs = Inl (TypeError ''Isochrone requires at least one argument'')"
  by (simp add: init_def)

lemma init_one: "init lib [x] (Some ic) fs =
    (case pathlib_Path x of Inl e \<Rightarrow> Inl e | Inr p \<Rightarrow> Inr (unloaded ic p, fs))"
  by (simp add: init_def split: sum.splits)

lemma init_two: "init lib [x, d] (Some ic) fs =
    (case pathlib_Path x of
       Inl e \<Rightarrow> Inl e
     | Inr p \<Rightarrow>
         (case write_table lib ic p d fs of
            Inl e \<Rightarrow> Inl e
          | Inr fs' \<Rightarrow> Inr (unloaded ic p, fs')))"
  by (simp add: init_def split: sum.splits)

lemma init_many: "init lib (x # d # y # ys) (Some ic) fs =
    Inl (TypeError (''Too many arguments ('' @ str_nat (length (x # d # y # ys)) @ '' given)''))"
  by (simp add: init_def)

lemma pathlib_Path_pathlike: "is_pathlike x \<Longrightarrow> \<exists>p. pathlib_Path x = Inr p"
  by (cases x) (simp_all add: pathlib_Path_def is_pathlike_def)

lemma pathlib_Path_other:
  "\<not> is_pathlike x \<Longrightarrow>
   pathlib_Path x = Inl (TypeError ''expected str, bytes or os.PathLike object'')"
  by (cases x) (simp_all add: pathlib_Path_def is_pathlike_def)

lemma pathlib_Path_Inr: "pathlib_Path x = Inr p \<Longrightarrow> is_pathlike x"
  by (cases x) (simp_all add: pathlib_Path_def is_pathlike_def)

text \<open>The ValueError is the method's own and no TypeError; a TypeError out of
  \<^verbatim>\<open>_write_table\<close> is one of the library's.\<close>

lemma write_table_TypeError:
  "raised_TypeError (write_table lib ic p d fs) = library_raises_TypeError lib ic p d fs"
  by (cases d)
     (simp_all add: write_table_def library_raises_TypeError_def sort_write_raises_TypeError_def
        raised_TypeError_def is_TypeError_def split: sum.splits)

lemma init_TypeError_iff:
  "init_raises_TypeError lib args kw fs \<longleftrightarrow>
      kw = None \<or> args = [] \<or> 2 < length args \<or> (args \<noteq> [] \<and> \<not> is_pathlike (args ! 0)) \<or>
      (\<exists>ic p. kw = Some ic \<and> length args = 2 \<and> pathlib_Path (args ! 0) = Inr p \<and>
         library_raises_TypeError lib ic p (args ! 1) fs)"
proof (cases kw)
  case None
  then show ?thesis
    by (simp add: init_raises_TypeError_def raised_TypeError_def init_None is_TypeError_def)
next
  case (Some ic)
  show ?thesis
  proof (cases args rule: args_cases)
    case 1
    then show ?thesis
      by (simp add: init_raises_TypeError_def raised_TypeError_def Some init_nil is_TypeError_def)
  next
    case (2 x)
    show ?thesis
    proof (cases "is_pathlike x")
      case True
      then obtain p where "pathlib_Path x = Inr p" using pathlib_Path_pathlike by blast
      then show ?thesis
        using True by (simp add: init_raises_TypeError_def raised_TypeError_def Some 2 init_one)
    next
      case False
      then show ?thesis
        by (simp add: init_raises_TypeError_def raised_TypeError_def Some 2 init_one
            pathlib_Path_other is_TypeError_def)
    qed
  next
    case (3 x d)
    show ?thesis
    proof (cases "is_pathlike x")
      case True
      then obtain p where p: "pathlib_Path x = Inr p" using pathlib_Path_pathlike by blast
      have "init_raises_TypeError lib args kw fs = raised_TypeError (write_table lib ic p d fs)"
        by (simp add: init_raises_TypeError_def raised_TypeError_def Some 3 init_two p
            split: sum.splits)
      then show ?thesis
        using True p by (simp add: write_table_TypeError Some 3)
    next
      case False
      then show ?thesis
        by (simp add: init_raises_TypeError_def raised_TypeError_def Some 3 init_two
            pathlib_Path_other is_TypeError_def)
    qed
  next
    case (4 x d y ys)
    then show ?thesis
      by (simp add: init_raises_TypeError_def raised_TypeError_def Some init_many is_TypeError_def
          del: str_nat.simps)
  qed
qed

lemma init_object:
  assumes "init lib args kw fs = Inr (self, fs')"
  shows "\<exists>ic p. kw = Some ic \<and> pathlib_Path (args ! 0) = Inr p \<and> self = unloaded ic p"
proof (cases kw)
  case None
  then show ?thesis using assms by (simp add: init_None)
next
  case (Some ic)
  show ?thesis
  proof (cases args rule: args_cases)
    case 1
    then show ?thesis using assms Some by (simp add: init_nil)
  next
    case (2 x)
    then show ?thesis using assms Some
      by (cases "pathlib_Path x") (auto simp: init_one)
  next
    case (3 x d)
    then show ?thesis using assms Some
      by (cases "pathlib_Path x") (auto simp: init_two split: sum.splits)
  next
    case (4 x d y ys)
    then show ?thesis using assms Some by (simp add: init_many del: str_nat.simps)
  qed
qed

subsection \<open>From a path alone\<close>

text \<open>
  C9. Constructing an IsochroneFile from a single path argument and the isochrone
  keyword succeeds whatever the files are, also when the path does not exist, returns
  the object with nothing loaded and leaves the files as they were. When the file is
  missing, the FileNotFoundError comes with the first access of \<^verbatim>\<open>column_names\<close> or of
  \<^verbatim>\<open>data\<close>, which leave the object as it was; the other properties do not take the
  files at all.
\<close>

theorem init_path_only:
  "init lib [PyStr p] (Some ic) fs = Inr (unloaded ic p, fs) \<and>
   (fs p = None \<longrightarrow>
      column_names fs (unloaded ic p :: (isochrone_class, 't) isochrone_file)
        = (Inl FileNotFoundError, unloaded ic p) \<and>
      data lib fs (unloaded ic p) = (Inl FileNotFoundError, unloaded ic p))"
  by (simp add: init_def pathlib_Path_def column_names_def load_column_names_def
      data_def load_data_def unloaded_def)

text \<open>A path that does not exist, on a disk with no file.\<close>

theorem init_path_only_witness:
  "init demo_lib [PyStr ''missing/output_0.5.dat''] (Some demo_isochrone) Map.empty
     = Inr (unloaded demo_isochrone ''missing/output_0.5.dat'', Map.empty) \<and>
   column_names Map.empty
     (unloaded demo_isochrone ''missing/output_0.5.dat'' :: (isochrone_class, demo_table) isochrone_file)
     = (Inl FileNotFoundError, unloaded demo_isochrone ''missing/output_0.5.dat'') \<and>
   data demo_lib Map.empty (unloaded demo_isochrone ''missing/output_0.5.dat'')
     = (Inl FileNotFoundError, unloaded demo_isochrone ''missing/output_0.5.dat'')"
  using init_path_only[of demo_lib "''missing/output_0.5.dat''" demo_isochrone Map.empty]
  by simp

subsection \<open>The TypeErrors of the constructor\<close>

text \<open>
  C10 (as amended). Construction raises a TypeError exactly when the isochrone keyword
  is omitted or None, when no positional argument is given, when more than two are
  given, when the first positional argument is neither a string nor a path-like object
  (\<^verbatim>\<open>pathlib.Path\<close> refuses it), or when, with two arguments, a call into the table
  library (the conversion of the DataFrame, the sort, the write) raises a TypeError
  itself. The keyword is checked first: without it the error is the one of the missing
  keyword whatever the positional arguments are. An error hands no object to the caller:
  whenever an object is returned, it is the complete object, from the isochrone given
  and the path of the first argument.
\<close>

theorem init_TypeError:
  "(init_raises_TypeError lib args kw fs \<longleftrightarrow>
      kw = None \<or> args = [] \<or> 2 < length args \<or> (args \<noteq> [] \<and> \<not> is_pathlike (args ! 0)) \<or>
      (\<exists>ic p. kw = Some ic \<and> length args = 2 \<and> pathlib_Path (args ! 0) = Inr p \<and>
         library_raises_TypeError lib ic p (args ! 1) fs)) \<and>
   init lib args None fs = Inl (TypeError ''Keyword argument 'isochrone' missing'') \<and>
   (\<forall>self fs'. init lib args kw fs = Inr (self, fs') \<longrightarrow>
      (\<exists>ic p. kw = Some ic \<and> pathlib_Path (args ! 0) = Inr p \<and> self = unloaded ic p))"
proof (intro conjI allI impI)
  show "init_raises_TypeError lib args kw fs \<longleftrightarrow>
      kw = None \<or> args = [] \<or> 2 < length args \<or> (args \<noteq> [] \<and> \<not> is_pathlike (args ! 0)) \<or>
      (\<exists>ic p. kw = Some ic \<and> length args = 2 \<and> pathlib_Path (args ! 0) = Inr p \<and>
         library_raises_TypeError lib ic p (args ! 1) fs)"
    by (rule init_TypeError_iff)
  show "init lib args None fs = Inl (TypeError ''Keyword argument 'isochrone' missing'')"
    by (rule init_None)
next
  fix self fs'
  assume "init lib args kw fs = Inr (self, fs')"
  then show "\<exists>ic p. kw = Some ic \<and> pathlib_Path (args ! 0) = Inr p \<and> self = unloaded ic p"
    by (rule init_object)
qed

text \<open>No keyword; no argument; three arguments; a library whose sort raises a TypeError;
  then what raises none: one string, one path object, and a path with what is no table
  (a ValueError). The object returned is the complete one.\<close>

theorem init_TypeError_witness:
  "init_raises_TypeError demo_lib [] (None :: isochrone_class option) Map.empty \<and>
   init_raises_TypeError demo_lib [] (Some demo_isochrone) Map.empty \<and>
   init_raises_TypeError demo_lib [PyStr ''a'', PyOther, PyOther] (Some demo_isochrone) Map.empty \<and>
   init_raises_TypeError (demo_lib\<lparr>table_sort := (\<lambda>keys t. Inl (TypeError ''unorderable''))\<rparr>)
     [PyStr ''output_0.5.dat'', Table ([''Age'', ''M_ini''], [[2, 1]])]
     (Some demo_isochrone) Map.empty \<and>
   \<not> init_raises_TypeError demo_lib [PyStr ''output_0.5.dat''] (Some demo_isochrone) Map.empty \<and>
   \<not> init_raises_TypeError demo_lib [PyPath ''output_0.5.dat''] (Some demo_isochrone) Map.empty \<and>
   \<not> init_raises_TypeError demo_lib [PyStr ''output_0.5.dat'', PyOther] (Some demo_isochrone) Map.empty \<and>
   (\<exists>ic p. Some demo_isochrone = Some ic \<and>
      pathlib_Path ([PyStr ''output_0.5.dat''] ! 0 :: (demo_table, demo_table) pyval) = Inr p \<and>
      (unloaded demo_isochrone ''output_0.5.dat'' :: (isochrone_class, demo_table) isochrone_file)
        = unloaded ic p)"
proof -
  let ?bad = "demo_lib\<lparr>table_sort := (\<lambda>keys t. Inl (TypeError ''unorderable''))\<rparr>"
  let ?t = "([''Age'', ''M_ini''], [[2, 1]]) :: demo_table"
  have ok: "init demo_lib [PyStr ''output_0.5.dat''] (Some demo_isochrone) Map.empty
      = Inr (unloaded demo_isochrone ''output_0.5.dat'', Map.empty)"
    by (simp add: init_def pathlib_Path_def)
  have lib_bad: "library_raises_TypeError ?bad demo_isochrone ''output_0.5.dat'' (Table ?t) Map.empty"
    by (simp add: library_raises_TypeError_def sort_write_raises_TypeError_def is_TypeError_def)
  have lib_ok: "\<And>p. \<not> library_raises_TypeError demo_lib demo_isochrone p
      (PyOther :: (demo_table, demo_table) pyval) Map.empty"
    by (simp add: library_raises_TypeError_def)
  have pth: "pathlib_Path (PyStr ''output_0.5.dat'' :: (demo_table, demo_table) pyval)
      = Inr ''output_0.5.dat''"
    "pathlib_Path (PyPath ''output_0.5.dat'' :: (demo_table, demo_table) pyval)
      = Inr ''output_0.5.dat''"
    by (simp_all add: pathlib_Path_def)
  show ?thesis
    using init_TypeError[of demo_lib "[]" None Map.empty]
      init_TypeError[of demo_lib "[]" "Some demo_isochrone" Map.empty]
      init_TypeError[of demo_lib "[PyStr ''a'', PyOther, PyOther]" "Some demo_isochrone" Map.empty]
      init_TypeError[of ?bad "[PyStr ''output_0.5.dat'', Table ?t]" "Some demo_isochrone" Map.empty]
      init_TypeError[of demo_lib "[PyStr ''output_0.5.dat'']" "Some demo_isochrone" Map.empty]
      init_TypeError[of demo_lib "[PyPath ''output_0.5.dat'']" "Some demo_isochrone" Map.empty]
      init_TypeError[of demo_lib "[PyStr ''output_0.5.dat'', PyOther]" "Some demo_isochrone" Map.empty]
      ok lib_bad lib_ok pth
    by (simp add: is_pathlike_def)
qed

text \<open>
  C10 as it is written fails: with the keyword given and one positional argument that is
  not a path, a TypeError is raised all the same, by \<^verbatim>\<open>pathlib.Path\<close>.
\<close>

theorem init_TypeError_counterexample:
  "init_raises_TypeError demo_lib [PyOther] (Some demo_isochrone) Map.empty \<and>
   Some demo_isochrone \<noteq> None \<and>
   [PyOther :: (demo_table, demo_table) pyval] \<noteq> [] \<and>
   \<not> 2 < length [PyOther :: (demo_table, demo_table) pyval]"
  by (simp add: init_raises_TypeError_def raised_TypeError_def init_def pathlib_Path_def
      is_TypeError_def)

section \<open>The example file, loaded\<close>

lemma demo_header: "header_loop ''#'' demo_text None = Some (''# Age M_ini'' @ [NL])"
  by (simp add: demo_text_def header_loop.simps is_comment_def)

lemma demo_parse: "parse_header (''# Age M_ini'' @ [NL]) = [''Age'', ''M_ini'']"
  by code_simp

lemma demo_column_names:
  "column_names [''output_0.5.dat'' \<mapsto> demo_text] (unloaded ic ''output_0.5.dat'')
   = (Inr (Some [''Age'', ''M_ini'']),
      (unloaded ic ''output_0.5.dat'')\<lparr>priv_column_names := Some [''Age'', ''M_ini'']\<rparr>)"
  using demo_header demo_parse
  by (simp add: column_names_def load_column_names_def unloaded_def)

lemma demo_rows:
  "demo_read [''output_0.5.dat'' \<mapsto> demo_text] ''output_0.5.dat'' (Some [''Age'', ''M_ini''])
   = Inr ([''Age'', ''M_ini''], [[2, 1], [1, 5]])"
  by (simp add: demo_read_def demo_text_def is_comment_def nat_of_str_def)

lemma demo_data:
  "data demo_lib [''output_0.5.dat'' \<mapsto> demo_text] (unloaded ic ''output_0.5.dat'')
   = (Inr (Some ([''Age'', ''M_ini''], [[2, 1], [1, 5]])),
      (unloaded ic ''output_0.5.dat'')
        \<lparr>priv_column_names := Some [''Age'', ''M_ini''],
         priv_data := Some ([''Age'', ''M_ini''], [[2, 1], [1, 5]])\<rparr>)"
proof -
  have n: "priv_data (unloaded ic ''output_0.5.dat'' :: (_, demo_table) isochrone_file) = None"
    by (simp add: unloaded_def)
  have p: "priv_path ((unloaded ic ''output_0.5.dat'' :: (_, demo_table) isochrone_file)
      \<lparr>priv_column_names := Some [''Age'', ''M_ini'']\<rparr>) = ''output_0.5.dat''"
    by (simp add: unloaded_def)
  have "load_data demo_lib [''output_0.5.dat'' \<mapsto> demo_text] (unloaded ic ''output_0.5.dat'')
      = (Inr (), (unloaded ic ''output_0.5.dat'')
        \<lparr>priv_column_names := Some [''Age'', ''M_ini''],
         priv_data := Some ([''Age'', ''M_ini''], [[2, 1], [1, 5]])\<rparr>)"
    by (simp add: load_data_def demo_column_names p demo_rows demo_lib_def)
  then show ?thesis using n by (simp add: data_def)
qed

text \<open>The example file, read by a new object: the first access of each property
  returns what the file holds and stores it; then come reads on a disk where the file
  is gone, and the stored value is still what is returned.\<close>

theorem caches_loaded_once_witness:
  "column_names [''output_0.5.dat'' \<mapsto> demo_text]
     (unloaded demo_isochrone ''output_0.5.dat'' :: (isochrone_class, demo_table) isochrone_file)
   = (Inr (Some [''Age'', ''M_ini'']),
      (unloaded demo_isochrone ''output_0.5.dat'')
        \<lparr>priv_column_names := Some [''Age'', ''M_ini'']\<rparr>) \<and>
   column_names Map.empty
     (lifetime demo_lib [(Map.empty, P_data), (Map.empty, P_metallicity), (Map.empty, P_column_names)]
        ((unloaded demo_isochrone ''output_0.5.dat'')
           \<lparr>priv_column_names := Some [''Age'', ''M_ini'']\<rparr>))
   = (Inr (Some [''Age'', ''M_ini'']),
      lifetime demo_lib [(Map.empty, P_data), (Map.empty, P_metallicity), (Map.empty, P_column_names)]
        ((unloaded demo_isochrone ''output_0.5.dat'')
           \<lparr>priv_column_names := Some [''Age'', ''M_ini'']\<rparr>)) \<and>
   data demo_lib [''output_0.5.dat'' \<mapsto> demo_text] (unloaded demo_isochrone ''output_0.5.dat'')
   = (Inr (Some ([''Age'', ''M_ini''], [[2, 1], [1, 5]])),
      (unloaded demo_isochrone ''output_0.5.dat'')
        \<lparr>priv_column_names := Some [''Age'', ''M_ini''],
         priv_data := Some ([''Age'', ''M_ini''], [[2, 1], [1, 5]])\<rparr>) \<and>
   data demo_lib Map.empty
     (lifetime demo_lib [(Map.empty, P_column_names), (Map.empty, P_data)]
        ((unloaded demo_isochrone ''output_0.5.dat'')
           \<lparr>priv_column_names := Some [''Age'', ''M_ini''],
            priv_data := Some ([''Age'', ''M_ini''], [[2, 1], [1, 5]])\<rparr>))
   = (Inr (Some ([''Age'', ''M_ini''], [[2, 1], [1, 5]])),
      lifetime demo_lib [(Map.empty, P_column_names), (Map.empty, P_data)]
        ((unloaded demo_isochrone ''output_0.5.dat'')
           \<lparr>priv_column_names := Some [''Age'', ''M_ini''],
            priv_data := Some ([''Age'', ''M_ini''], [[2, 1], [1, 5]])\<rparr>))"
proof -
  let ?fs = "[''output_0.5.dat'' \<mapsto> demo_text]"
  let ?self = "unloaded demo_isochrone ''output_0.5.dat'' :: (isochrone_class, demo_table) isochrone_file"
  let ?t = "([''Age'', ''M_ini''], [[2, 1], [1, 5]]) :: demo_table"
  let ?named = "?self\<lparr>priv_column_names := Some [''Age'', ''M_ini'']\<rparr>"
  let ?loaded = "?self\<lparr>priv_column_names := Some [''Age'', ''M_ini''], priv_data := Some ?t\<rparr>"
  note t0 = caches_loaded_once[where fresh = ?self and fs_first = ?fs and content = demo_text
        and h = "''# Age M_ini'' @ [NL]" and names = "Some [''Age'', ''M_ini'']"
        and mid = ?named and t = ?t and lib = demo_lib]
  have on_disk: "priv_column_names ?self = None \<and> ?fs (priv_path ?self) = Some demo_text \<and>
      header_loop ''#'' demo_text None = Some (''# Age M_ini'' @ [NL])"
    using demo_header by (simp add: unloaded_def)
  have a: "column_names ?fs ?self = (Inr (Some [''Age'', ''M_ini'']), ?named)"
    using mp[OF conjunct1[OF conjunct2[OF conjunct2[OF t0]]] on_disk] demo_parse by simp
  have readable: "priv_data ?self = None \<and>
      column_names ?fs ?self = (Inr (Some [''Age'', ''M_ini'']), ?named) \<and>
      ascii_read demo_lib ?fs (priv_path ?named) (Some [''Age'', ''M_ini'']) = Inr ?t"
    using a demo_rows by (simp add: unloaded_def demo_lib_def)
  have b: "data demo_lib ?fs ?self = (Inr (Some ?t), ?loaded)"
    using mp[OF conjunct1[OF conjunct2[OF conjunct2[OF conjunct2[OF t0]]]] readable] by simp
  note t1 = caches_loaded_once[where fs = ?fs and self = ?self and v = "Some [''Age'', ''M_ini'']"
        and self' = ?named and lib = demo_lib and fs_later = Map.empty
        and accesses = "[(Map.empty, P_data), (Map.empty, P_metallicity), (Map.empty, P_column_names)]"]
  note t2 = caches_loaded_once[where fs = ?fs and self = ?self and d = "Some ?t"
        and self' = ?loaded and lib = demo_lib and lib_later = demo_lib and fs_later = Map.empty
        and accesses = "[(Map.empty, P_column_names), (Map.empty, P_data)]"]
  show ?thesis
    by (simp only: a b
        mp[OF conjunct1[OF conjunct2[OF conjunct2[OF conjunct2[OF conjunct2[OF t1]]]]] a,
          THEN conjunct2]
        mp[OF conjunct2[OF conjunct2[OF conjunct2[OF conjunct2[OF conjunct2[OF t2]]]]] b,
          THEN conjunct2] simp_thms)
qed

section \<open>Construction from a path and a table\<close>

text \<open>The header that the table writer puts is read back as the names it was made of.\<close>

lemma column_names_written:
  assumes on_disk: "fs (priv_path self) = Some (''# '' @ join_sp (n # ns) @ [NL] @ body)"
    and fresh: "priv_column_names self = None"
    and names: "\<forall>x \<in> set (n # ns). proper_name x" "hd n \<noteq> HASH"
    and body: "\<not> is_comment body"
  shows "column_names fs self = (Inr (Some (n # ns)), self\<lparr>priv_column_names := Some (n # ns)\<rparr>)"
proof -
  let ?rest = "map (\<lambda>x. ([SP], x)) ns"
  let ?l = "SP # header_text n ?rest"
  let ?line = "HASH # ?l @ [NL]"
  have snd_rest: "map snd ?rest = ns" by (induction ns) auto
  have shape: "''# '' @ join_sp (n # ns) @ [NL] @ body = comment_block [] @ ?line @ body"
    by (simp add: join_sp_header_text comment_block_def)
  have "NL \<notin> set (join_sp (n # ns))"
    using names(1)
  proof (induction ns arbitrary: n)
    case Nil
    then show ?case by (simp add: proper_name_def)
  next
    case (Cons a ns)
    have "NL \<notin> set (join_sp (a # ns))" using Cons.prems by (intro Cons.IH) simp
    then show ?case using Cons.prems by (simp add: proper_name_def)
  qed
  then have nl: "NL \<notin> set ?l" by (simp add: join_sp_header_text)
  have c: "is_comment ''#''" by (simp add: is_comment_def)
  have e: "\<forall>l \<in> set ([] :: string list). NL \<notin> set l" by simp
  have found: "header_loop ''#'' (comment_block [] @ ?line @ body) None = Some ?line"
    using c e nl body by (rule header_loop_finds)
  have n1: "\<forall>x \<in> set (n # map snd ?rest). proper_name x" using names(1) snd_rest by simp
  have s1: "\<forall>s \<in> set (map fst ?rest). proper_sep s" by (auto simp: proper_sep_def)
  have "parse_header (replicate (Suc 0) HASH @ replicate 1 SP @ header_text n ?rest @ [NL])
      = n # map snd ?rest"
    using n1 s1 names(2) by (rule parse_header_form)
  then have parsed: "parse_header ?line = n # ns" using snd_rest by simp
  have "load_column_names fs self = Inr (self\<lparr>priv_column_names := Some (n # ns)\<rparr>)"
    using on_disk[unfolded shape] found parsed
    by (simp only: load_column_names_def option.case)
  then show ?thesis using fresh by (simp add: column_names_def)
qed

text \<open>
  C6. Constructing an IsochroneFile from a path and tabular data (a Table, or a
  DataFrame through \<^verbatim>\<open>from_pandas\<close>) sorts the table by the isochrone's age and initial-mass
  columns and writes it to the path before the object is returned; the object returned
  has nothing loaded, as after the construction from the path alone. Reading its
  \<^verbatim>\<open>data\<close> then yields the sorted table that was written. The library's part is assumed:
  the conversion, the sort and the write return, the file written begins with the commented header of
  the column names (\<^verbatim>\<open>'# ' + ' '.join(names)\<close>) followed by what is no comment line, and
  \<^verbatim>\<open>ascii.read\<close> of that file with those names gives the table written.
\<close>

theorem init_with_table:
  assumes given: "d = Table t \<or> (\<exists>df. d = DataFrame df \<and> from_pandas lib df = Inr t)"
    and sorting: "table_sort lib [attr_Age ic, attr_M_ini ic] t = Inr t_sorted"
    and writing: "table_write lib t_sorted p fs = Inr fs'"
    and written: "fs' p = Some (''# '' @ join_sp (n # ns) @ [NL] @ body)"
    and names: "\<forall>x \<in> set (n # ns). proper_name x" "hd n \<noteq> HASH"
    and body: "\<not> is_comment body"
    and reading: "ascii_read lib fs' p (Some (n # ns)) = Inr t_sorted"
  shows "init lib [PyStr p, d] (Some ic) fs = Inr (unloaded ic p, fs') \<and>
     data lib fs' (unloaded ic p)
       = (Inr (Some t_sorted),
          (unloaded ic p)\<lparr>priv_column_names := Some (n # ns), priv_data := Some t_sorted\<rparr>)"
proof
  have "write_table lib ic p d fs = Inr fs'"
    using given sorting writing by (auto simp: write_table_def)
  then show "init lib [PyStr p, d] (Some ic) fs = Inr (unloaded ic p, fs')"
    by (simp add: init_def pathlib_Path_def)
next
  let ?self = "unloaded ic p :: (isochrone_class, 'b) isochrone_file"
  have od: "fs' (priv_path ?self) = Some (''# '' @ join_sp (n # ns) @ [NL] @ body)"
    using written by (simp add: unloaded_def)
  have fresh: "priv_column_names ?self = None" by (simp add: unloaded_def)
  have cn: "column_names fs' ?self
      = (Inr (Some (n # ns)), ?self\<lparr>priv_column_names := Some (n # ns)\<rparr>)"
    using od fresh names body by (rule column_names_written)
  have pp: "priv_path (?self\<lparr>priv_column_names := Some (n # ns)\<rparr>) = p"
    by (simp add: unloaded_def)
  have "load_data lib fs' ?self
      = (Inr (), ?self\<lparr>priv_column_names := Some (n # ns), priv_data := Some t_sorted\<rparr>)"
    by (simp add: load_data_def cn pp reading)
  moreover have "priv_data ?self = None" by (simp add: unloaded_def)
  ultimately show "data lib fs' ?self
       = (Inr (Some t_sorted),
          ?self\<lparr>priv_column_names := Some (n # ns), priv_data := Some t_sorted\<rparr>)"
    by (simp add: data_def)
qed

text \<open>Three rows out of order, with the example library: the file written has them by
  age and then initial mass, and \<^verbatim>\<open>data\<close> returns them so.\<close>

theorem init_with_table_witness:
  "init demo_lib
     [PyStr ''output_0.5.dat'', Table ([''Age'', ''M_ini''], [[2, 1], [1, 5], [1, 3]])]
     (Some demo_isochrone) Map.empty
   = Inr (unloaded demo_isochrone ''output_0.5.dat'',
          [''output_0.5.dat'' \<mapsto>
             ''# Age M_ini'' @ [NL] @ ''1 3'' @ [NL] @ ''1 5'' @ [NL] @ ''2 1'' @ [NL]]) \<and>
   data demo_lib
     [''output_0.5.dat'' \<mapsto>
        ''# Age M_ini'' @ [NL] @ ''1 3'' @ [NL] @ ''1 5'' @ [NL] @ ''2 1'' @ [NL]]
     (unloaded demo_isochrone ''output_0.5.dat'')
   = (Inr (Some ([''Age'', ''M_ini''], [[1, 3], [1, 5], [2, 1]])),
      (unloaded demo_isochrone ''output_0.5.dat'')
        \<lparr>priv_column_names := Some [''Age'', ''M_ini''],
         priv_data := Some ([''Age'', ''M_ini''], [[1, 3], [1, 5], [2, 1]])\<rparr>)"
proof -
  let ?p = "''output_0.5.dat''"
  let ?t = "([''Age'', ''M_ini''], [[2, 1], [1, 5], [1, 3]]) :: demo_table"
  let ?s = "([''Age'', ''M_ini''], [[1, 3], [1, 5], [2, 1]]) :: demo_table"
  let ?body = "''1 3'' @ [NL] @ ''1 5'' @ [NL] @ ''2 1'' @ [NL]"
  let ?fs' = "[?p \<mapsto> ''# Age M_ini'' @ [NL] @ ?body]"
  have given: "(Table ?t :: (demo_table, demo_table) pyval) = Table ?t \<or>
      (\<exists>df. (Table ?t :: (demo_table, demo_table) pyval) = DataFrame df \<and>
         from_pandas demo_lib df = Inr ?t)"
    by simp
  have sorting: "table_sort demo_lib [attr_Age demo_isochrone, attr_M_ini demo_isochrone] ?t = Inr ?s"
    by (simp add: demo_lib_def demo_isochrone_def demo_sort_def)
  have render: "demo_render ?s = ''# Age M_ini'' @ [NL] @ ?body"
    by code_simp
  have writing: "table_write demo_lib ?s ?p Map.empty = Inr ?fs'"
    using render by (simp add: demo_lib_def)
  have written: "?fs' ?p = Some (''# '' @ join_sp [''Age'', ''M_ini''] @ [NL] @ ?body)"
    by simp
  have names: "\<forall>x \<in> set [''Age'', ''M_ini'']. proper_name x" by (simp add: proper_name_def)
  have h: "hd ''Age'' \<noteq> HASH" by simp
  have body: "\<not> is_comment ?body" by (simp add: is_comment_def)
  have reading: "ascii_read demo_lib ?fs' ?p (Some [''Age'', ''M_ini'']) = Inr ?s"
    by (simp add: demo_lib_def demo_read_def is_comment_def nat_of_str_def)
  show ?thesis
    using init_with_table[where lib = demo_lib and d = "Table ?t" and t = ?t and ic = demo_isochrone
        and t_sorted = ?s and p = ?p and fs = Map.empty and fs' = ?fs' and n = "''Age''"
        and ns = "[''M_ini'']" and body = ?body,
        OF given sorting writing written names h body reading]
    by simp
qed

section \<open>The input paths of the entry point\<close>

lemma select_input_both:
  "select_input args (Some p) (Some k) simname knorm ngb = Inr (Prebuilt p k)"
  by (simp add: select_input_def)

lemma select_input_not_both:
  "pname = None \<or> kname = None \<Longrightarrow>
   select_input args pname kname simname knorm ngb =
     (if length args = 3 then Inr (FromArrays args simname knorm ngb)
      else Inl (UnboundLocalError ''input''))"
  by (auto simp: select_input_def split: option.splits)

text \<open>
  C7 (as amended). Exactly one input path is taken, by precedence. When \<^verbatim>\<open>pname\<close> and
  \<^verbatim>\<open>kname\<close> are both given, the pre-built files are the input and the positional arguments
  are ignored: the call does what the same call without them does, so giving both paths is
  no error. Otherwise exactly three positional arguments are the raw arrays (a lone
  \<^verbatim>\<open>pname\<close> or \<^verbatim>\<open>kname\<close> is ignored). A call that selects neither fails, with the
  UnboundLocalError of the unbound variable \<^verbatim>\<open>input\<close>.
\<close>

theorem entry_point_paths:
  "(pname = Some p \<and> kname = Some k \<longrightarrow>
      select_input args pname kname simname knorm ngb = Inr (Prebuilt p k) \<and>
      make_survey_from_particles pkg args pname kname photo_sys cmd_magnames simname surveyname
          fsample ngb knorm kwargs
        = make_survey_from_particles pkg [] pname kname photo_sys cmd_magnames simname surveyname
          fsample ngb knorm kwargs) \<and>
   ((pname = None \<or> kname = None) \<and> length args = 3 \<longrightarrow>
      select_input args pname kname simname knorm ngb = Inr (FromArrays args simname knorm ngb)) \<and>
   ((pname = None \<or> kname = None) \<and> length args \<noteq> 3 \<longrightarrow>
      make_survey_from_particles pkg args pname kname photo_sys cmd_magnames simname surveyname
          fsample ngb knorm kwargs
        = Inl (UnboundLocalError ''input''))"
proof (intro conjI impI)
  assume b: "pname = Some p \<and> kname = Some k"
  then show "select_input args pname kname simname knorm ngb = Inr (Prebuilt p k)"
    by (simp add: select_input_both)
  show "make_survey_from_particles pkg args pname kname photo_sys cmd_magnames simname surveyname
          fsample ngb knorm kwargs
        = make_survey_from_particles pkg [] pname kname photo_sys cmd_magnames simname surveyname
          fsample ngb knorm kwargs"
    using b by (simp add: make_survey_from_particles_def select_input_both)
next
  assume "(pname = None \<or> kname = None) \<and> length args = 3"
  then show "select_input args pname kname simname knorm ngb = Inr (FromArrays args simname knorm ngb)"
    by (simp add: select_input_not_both)
next
  assume "(pname = None \<or> kname = None) \<and> length args \<noteq> 3"
  then have "select_input args pname kname simname knorm ngb = Inl (UnboundLocalError ''input'')"
    by (simp add: select_input_not_both)
  then show "make_survey_from_particles pkg args pname kname photo_sys cmd_magnames simname surveyname
          fsample ngb knorm kwargs
        = Inl (UnboundLocalError ''input'')"
    by (simp add: make_survey_from_particles_def)
qed

theorem entry_point_paths_witness:
  "make_survey_from_particles demo_package [(), (), ()] (Some ''sim.ebf'') (Some ''sim_d6.ebf'')
       [''PS1''] ''g,g-r'' ''sim'' ''survey'' 1 64 0.596831 []
     = make_survey_from_particles demo_package [] (Some ''sim.ebf'') (Some ''sim_d6.ebf'')
       [''PS1''] ''g,g-r'' ''sim'' ''survey'' 1 64 0.596831 [] \<and>
   select_input [(), (), ()] (Some ''sim.ebf'') None ''sim'' 0.596831 64
     = Inr (FromArrays [(), (), ()] ''sim'' 0.596831 64) \<and>
   make_survey_from_particles demo_package [] None None
       [''PS1''] ''g,g-r'' ''sim'' ''survey'' 1 64 0.596831 []
     = Inl (UnboundLocalError ''input'')"
  using
    entry_point_paths[where pname = "Some ''sim.ebf''" and kname = "Some ''sim_d6.ebf''"
      and p = "''sim.ebf''" and k = "''sim_d6.ebf''" and args = "[(), (), ()]"
      and pkg = demo_package and photo_sys = "[''PS1'']" and cmd_magnames = "''g,g-r''"
      and simname = "''sim''" and surveyname = "''survey''" and fsample = 1 and ngb = 64
      and knorm = "0.596831" and kwargs = "[]"]
    entry_point_paths[where pname = "Some ''sim.ebf''" and kname = None
      and args = "[(), (), ()]" and simname = "''sim''" and ngb = 64 and knorm = "0.596831"]
    entry_point_paths[where pname = None and kname = None and args = "[]"
      and pkg = demo_package and photo_sys = "[''PS1'']" and cmd_magnames = "''g,g-r''"
      and simname = "''sim''" and surveyname = "''survey''" and fsample = 1 and ngb = 64
      and knorm = "0.596831" and kwargs = "[]"]
  by simp

text \<open>
  C7 as it is written fails: a call with the three arrays and with both file names raises
  nothing (the collaborators succeeding); it runs on the pre-built files.
\<close>

theorem entry_point_paths_counterexample:
  "make_survey_from_particles demo_package [(), (), ()] (Some ''sim.ebf'') (Some ''sim_d6.ebf'')
       [''PS1''] ''g,g-r'' ''sim'' ''survey'' 1 64 0.596831 []
     = Inr (Prebuilt ''sim.ebf'' ''sim_d6.ebf'')"
  by (simp add: make_survey_from_particles_def select_input_def demo_package_def make_survey_def)

section \<open>The sample fraction\<close>

text \<open>
  C8. With \<^verbatim>\<open>make_survey\<close> as the spec has it: a sample fraction outside [0, 1] passed
  to the entry point ends in an error, and the survey is not generated: the outcome is
  the same whatever the engine is. When the input and the survey object are built, the
  error is that rejection. The entry point hands \<^verbatim>\<open>fsample\<close> on unchanged and checks
  nothing itself.
\<close>

theorem fsample_rejected:
  assumes "fsample < 0 \<or> 1 < fsample"
  shows "(\<exists>e. make_survey_from_particles pkg args pname kname photo_sys cmd_magnames simname
            surveyname fsample ngb knorm kwargs = Inl e) \<and>
     make_survey_from_particles (pkg\<lparr>engine := other\<rparr>) args pname kname photo_sys cmd_magnames
            simname surveyname fsample ngb knorm kwargs
       = make_survey_from_particles pkg args pname kname photo_sys cmd_magnames simname
            surveyname fsample ngb knorm kwargs \<and>
     (select_input args pname kname simname knorm ngb = Inr call \<and> Input pkg call = Inr inp \<and>
      Survey pkg inp photo_sys surveyname = Inr survey \<longrightarrow>
        make_survey_from_particles pkg args pname kname photo_sys cmd_magnames simname
            surveyname fsample ngb knorm kwargs = Inl (ParameterError ''fsample''))"
proof -
  have r: "\<And>q sv. make_survey q sv cmd_magnames fsample kwargs = Inl (ParameterError ''fsample'')"
    using assms by (auto simp: make_survey_def)
  show ?thesis
    by (auto simp: make_survey_from_particles_def r split: sum.splits)
qed

theorem fsample_rejected_witness:
  "make_survey_from_particles demo_package [(), (), ()] None None
       [''PS1''] ''g,g-r'' ''sim'' ''survey'' (3 / 2) 64 0.596831 []
     = Inl (ParameterError ''fsample'') \<and>
   make_survey_from_particles demo_package [] (Some ''sim.ebf'') (Some ''sim_d6.ebf'')
       [''PS1''] ''g,g-r'' ''sim'' ''survey'' (- 1 / 10) 64 0.596831 []
     = Inl (ParameterError ''fsample'')"
proof -
  have a: "(3 / 2 :: real) < 0 \<or> 1 < (3 / 2 :: real)" by simp
  have b: "(- 1 / 10 :: real) < 0 \<or> 1 < (- 1 / 10 :: real)" by simp
  have sa: "select_input [(), (), ()] None None ''sim'' 0.596831 64
      = Inr (FromArrays [(), (), ()] ''sim'' 0.596831 64)"
    by (simp add: select_input_def)
  have sb: "select_input ([] :: unit list) (Some ''sim.ebf'') (Some ''sim_d6.ebf'') ''sim'' 0.596831 64
      = Inr (Prebuilt ''sim.ebf'' ''sim_d6.ebf'')"
    by (simp add: select_input_def)
  have i: "\<And>c. Input demo_package c = Inr c" by (simp add: demo_package_def)
  have s: "\<And>c. Survey demo_package c [''PS1''] ''survey'' = Inr c" by (simp add: demo_package_def)
  show ?thesis
    using fsample_rejected[OF a, where pkg = demo_package and args = "[(), (), ()]"
        and pname = None and kname = None and simname = "''sim''" and knorm = "0.596831"
        and ngb = 64 and photo_sys = "[''PS1'']" and surveyname = "''survey''"
        and call = "FromArrays [(), (), ()] ''sim'' 0.596831 64"
        and inp = "FromArrays [(), (), ()] ''sim'' 0.596831 64"
        and survey = "FromArrays [(), (), ()] ''sim'' 0.596831 64"
        and cmd_magnames = "''g,g-r''" and kwargs = "[]"]
      fsample_rejected[OF b, where pkg = demo_package and args = "[]"
        and pname = "Some ''sim.ebf''" and kname = "Some ''sim_d6.ebf''" and simname = "''sim''"
        and knorm = "0.596831" and ngb = 64 and photo_sys = "[''PS1'']" and surveyname = "''survey''"
        and call = "Prebuilt ''sim.ebf'' ''sim_d6.ebf''"
        and inp = "Prebuilt ''sim.ebf'' ''sim_d6.ebf''"
        and survey = "Prebuilt ''sim.ebf'' ''sim_d6.ebf''"
        and cmd_magnames = "''g,g-r''" and kwargs = "[]"]
      sa sb i s
    by simp
qed

end
